theory Spec2Isabelle
  imports Complex_Main
begin

section \<open>UrbanMart: synthetic sales generator, analysis script and dashboard\<close>

text \<open>
  A shallow embedding of \<^verbatim>\<open>generate_urbanmart_sales.py\<close>, of the manual counter of
  \<^verbatim>\<open>Urbanmart_analysis.py\<close> and of the header KPIs of \<^verbatim>\<open>app.py\<close>.

  Conventions of the embedding.
  \<^item> A Python \<^verbatim>\<open>float\<close> is modelled by an exact rational (\<^typ>\<open>rat\<close>): the decimal
    literals of the source stand for the fractions they denote, and binary rounding of
    IEEE doubles is outside the model.
  \<^item> A Python \<^verbatim>\<open>int\<close> is an \<^typ>\<open>int\<close>; counters that only grow from 0 are \<^typ>\<open>nat\<close>.
  \<^item> A Python \<^verbatim>\<open>str\<close> is a \<^typ>\<open>string\<close>; the strings of this program are ASCII.
  \<^item> An exception is a value \<open>Inl e\<close> of the result type \<open>py_error + 'a\<close>.
\<close>

datatype py_error =
    KeyError | ValueError | IndexError | ZeroDivisionError | FileNotFoundError
  | EmptyDataError | ParserError


section \<open>The analysis script: manual transaction-type counter\<close>

text \<open>
  The values a cell of the column \<^verbatim>\<open>transaction_type\<close> can hold after
  \<^verbatim>\<open>df[...].tolist()\<close>: a string, or something that is not a string
  (\<^verbatim>\<open>None\<close>, an integer, a float such as the missing-value marker).
\<close>

datatype pyval = PyStr string | PyNone | PyInt int | PyFloat rat

text \<open>\<^verbatim>\<open>isinstance(t, str)\<close>\<close>

fun is_str :: "pyval \<Rightarrow> bool" where
  "is_str (PyStr s) = True"
| "is_str v = False"

text \<open>
  \<^verbatim>\<open>str.strip()\<close> and \<^verbatim>\<open>str.lower()\<close> on ASCII text. The ASCII characters Python
  treats as white space are the codes 9 to 13, 28 to 31 and 32.
\<close>

definition is_space :: "char \<Rightarrow> bool" where
  "is_space c = (let n = (of_char c :: nat) in (9 \<le> n \<and> n \<le> 13) \<or> (28 \<le> n \<and> n \<le> 32))"

definition py_strip :: "string \<Rightarrow> string" where
  "py_strip s = rev (dropWhile is_space (rev (dropWhile is_space s)))"

definition lower_char :: "char \<Rightarrow> char" where
  "lower_char c = (let n = (of_char c :: nat) in if 65 \<le> n \<and> n \<le> 90 then char_of (n + 32) else c)"

definition py_lower :: "string \<Rightarrow> string" where
  "py_lower s = map lower_char s"

text \<open>
  One iteration of the loop of \<^verbatim>\<open>main\<close>, on the pair
  \<open>(online_count, instore_count)\<close>:
  \<^verbatim>\<open>
    if isinstance(t, str):
        tt = t.strip().lower()
        if tt == "online": online_count += 1
        elif tt in ("in-store", "instore", "in store"): instore_count += 1
  \<close>
\<close>

fun count_step :: "nat \<times> nat \<Rightarrow> pyval \<Rightarrow> nat \<times> nat" where
  "count_step (online_count, instore_count) (PyStr t) =
     (let tt = py_lower (py_strip t) in
      if tt = ''online'' then (online_count + 1, instore_count)
      else if tt \<in> set [''in-store'', ''instore'', ''in store''] then (online_count, instore_count + 1)
      else (online_count, instore_count))"
| "count_step (online_count, instore_count) v = (online_count, instore_count)"

definition manual_counts :: "pyval list \<Rightarrow> nat \<times> nat" where
  "manual_counts ts = foldl count_step (0, 0) ts"


section \<open>The dashboard: header KPIs\<close>

text \<open>
  The columns of the filtered frame \<^verbatim>\<open>fdf\<close> that the header KPIs read. An identifier
  cell can be missing (\<open>None\<close>): \<^verbatim>\<open>nunique()\<close> does not count missing values. The
  loader has dropped every row without a numeric \<^verbatim>\<open>sales_amount\<close>.
\<close>

record kpi_row =
  row_transaction_id :: "string option"
  row_customer_id :: "string option"
  row_sales_amount :: rat

text \<open>\<^verbatim>\<open>Series.nunique()\<close>: the number of distinct values that are present.\<close>

definition nunique :: "string option list \<Rightarrow> nat" where
  "nunique col = length (remdups (List.map_filter id col))"

text \<open>Python's \<^verbatim>\<open>/\<close> on numbers raises on a zero divisor.\<close>

definition py_truediv :: "rat \<Rightarrow> rat \<Rightarrow> py_error + rat" where
  "py_truediv a b = (if b = 0 then Inl ZeroDivisionError else Inr (a / b))"

definition total_sales :: "kpi_row list \<Rightarrow> rat" where
  "total_sales fdf = sum_list (map row_sales_amount fdf)"

definition orders :: "kpi_row list \<Rightarrow> nat" where
  "orders fdf = nunique (map row_transaction_id fdf)"

definition customers :: "kpi_row list \<Rightarrow> nat" where
  "customers fdf = nunique (map row_customer_id fdf)"

text \<open>\<^verbatim>\<open>aov = total_sales / orders if orders else 0.0\<close>\<close>

definition aov :: "kpi_row list \<Rightarrow> py_error + rat" where
  "aov fdf = (if orders fdf \<noteq> 0 then py_truediv (total_sales fdf) (of_nat (orders fdf)) else Inr 0)"


section \<open>The generator: category weights\<close>

text \<open>The catalog, a dictionary in insertion order: category, then (product, base price).\<close>

definition catalog :: "(string \<times> (string \<times> rat) list) list" where
  "catalog =
    [(''Groceries'',
        [(''Rice 5kg'', 18), (''Pasta Pack'', 5 / 2), (''Olive Oil 1L'', 10),
         (''Breakfast Cereal'', 9 / 2), (''Coffee 250g'', 6)]),
     (''Beverages'',
        [(''Sparkling Water 6-pack'', 4), (''Orange Juice'', 7 / 2),
         (''Soda 12-pack'', 15 / 2), (''Green Tea Box'', 3)]),
     (''Household'',
        [(''Laundry Detergent'', 9), (''Dish Soap'', 3),
         (''Paper Towels'', 13 / 2), (''Trash Bags'', 5)]),
     (''Personal Care'',
        [(''Shampoo'', 6), (''Toothpaste'', 5 / 2),
         (''Body Wash'', 11 / 2), (''Deodorant'', 4)]),
     (''Electronics'',
        [(''Wireless Earbuds'', 45), (''Phone Charger'', 15),
         (''Smart Speaker'', 60), (''Power Bank'', 25)]),
     (''Clothing'',
        [(''T-Shirt'', 12), (''Jeans'', 35),
         (''Sneakers'', 55), (''Jacket'', 70)])]"

text \<open>\<^verbatim>\<open>categories = np.array(list(catalog.keys()))\<close>\<close>

definition categories :: "string list" where
  "categories = map fst catalog"

text \<open>\<^verbatim>\<open>list.index(x)\<close>: the first position of \<open>x\<close>, or \<^verbatim>\<open>ValueError\<close>.\<close>

fun py_index :: "'a list \<Rightarrow> 'a \<Rightarrow> py_error + nat" where
  "py_index [] x = Inl ValueError"
| "py_index (y # ys) x =
     (if y = x then Inr 0
      else (case py_index ys x of Inl e \<Rightarrow> Inl e | Inr i \<Rightarrow> Inr (Suc i)))"

definition base_cat_probs :: "rat list" where
  "base_cat_probs = [32 / 100, 14 / 100, 16 / 100, 14 / 100, 12 / 100, 12 / 100]"

text \<open>
  The three in-place updates of the copy of \<open>base_cat_probs\<close>, before the division by
  the sum:
  \<^verbatim>\<open>
    cat_probs_online[categories.tolist().index("Electronics")] += 0.05
    cat_probs_online[categories.tolist().index("Groceries")] -= 0.03
    cat_probs_online[categories.tolist().index("Household")] -= 0.02
  \<close>
\<close>

definition cat_probs_shifted :: "py_error + rat list" where
  "cat_probs_shifted =
    (case py_index categories ''Electronics'' of Inl e \<Rightarrow> Inl e | Inr ie \<Rightarrow>
     (case py_index categories ''Groceries'' of Inl e \<Rightarrow> Inl e | Inr ig \<Rightarrow>
     (case py_index categories ''Household'' of Inl e \<Rightarrow> Inl e | Inr ih \<Rightarrow>
       (let p0 = base_cat_probs;
            p1 = p0[ie := p0 ! ie + 5 / 100];
            p2 = p1[ig := p1 ! ig - 3 / 100];
            p3 = p2[ih := p2 ! ih - 2 / 100]
        in Inr p3))))"

text \<open>\<^verbatim>\<open>cat_probs_online = cat_probs_online / cat_probs_online.sum()\<close>\<close>

definition normalize :: "rat list \<Rightarrow> rat list" where
  "normalize p = map (\<lambda>x. x / sum_list p) p"

definition cat_probs_online :: "py_error + rat list" where
  "cat_probs_online = (case cat_probs_shifted of Inl e \<Rightarrow> Inl e | Inr p \<Rightarrow> Inr (normalize p))"



section \<open>The generator: random source\<close>

text \<open>
  \<^verbatim>\<open>np.random.default_rng(seed)\<close> is library code. Its bit generator is a parameter of
  the embedding: a state type \<open>'g\<close>, the state a seed gives, a step that returns the next
  double of \<open>[0, 1)\<close> and a step that returns the next integer below a bound. What the
  library promises of the two steps is \<open>wf_bitgen\<close>.

  The record holds one more choice the libraries make: \<open>tie_order\<close>, the rank
  \<^verbatim>\<open>sort_values\<close> gives to the rows of one date (its default sort is not stable). It
  takes the column of dates and a row position. Nothing is assumed of it.
\<close>

record 'g bitgen =
  seed_state :: "int \<Rightarrow> 'g"
  next_double :: "'g \<Rightarrow> rat \<times> 'g"
  next_bounded :: "nat \<Rightarrow> 'g \<Rightarrow> nat \<times> 'g"
  tie_order :: "int list \<Rightarrow> nat \<Rightarrow> nat"

definition wf_bitgen :: "'g bitgen \<Rightarrow> bool" where
  "wf_bitgen bg \<longleftrightarrow>
     (\<forall>g. 0 \<le> fst (next_double bg g) \<and> fst (next_double bg g) < 1) \<and>
     (\<forall>k g. 0 < k \<longrightarrow> fst (next_bounded bg k g) < k)"

text \<open>\<^verbatim>\<open>np.random.default_rng(seed)\<close>: a negative seed raises \<^verbatim>\<open>ValueError\<close>.\<close>

definition default_rng :: "'g bitgen \<Rightarrow> int \<Rightarrow> py_error + 'g" where
  "default_rng bg seed = (if seed < 0 then Inl ValueError else Inr (seed_state bg seed))"

definition bind_err :: "py_error + 'a \<Rightarrow> ('a \<Rightarrow> py_error + 'b) \<Rightarrow> py_error + 'b" where
  "bind_err m f = (case m of Inl e \<Rightarrow> Inl e | Inr x \<Rightarrow> f x)"

text \<open>\<^verbatim>\<open>rng.integers(low, high)\<close>: an integer of \<open>[low, high)\<close>; an empty range raises.\<close>

definition rng_integers :: "'g bitgen \<Rightarrow> int \<Rightarrow> int \<Rightarrow> 'g \<Rightarrow> py_error + (int \<times> 'g)" where
  "rng_integers bg low high g =
     (if high \<le> low then Inl ValueError
      else (case next_bounded bg (nat (high - low)) g of (k, g') \<Rightarrow> Inr (low + int k, g')))"

text \<open>\<^verbatim>\<open>rng.uniform(low, high)\<close> is \<open>low + (high - low) * random()\<close>.\<close>

definition rng_uniform :: "'g bitgen \<Rightarrow> rat \<Rightarrow> rat \<Rightarrow> 'g \<Rightarrow> py_error + (rat \<times> 'g)" where
  "rng_uniform bg low high g =
     (case next_double bg g of (u, g') \<Rightarrow> Inr (low + (high - low) * u, g'))"

fun cumsum_from :: "rat \<Rightarrow> rat list \<Rightarrow> rat list" where
  "cumsum_from acc [] = []"
| "cumsum_from acc (x # xs) = (acc + x) # cumsum_from (acc + x) xs"

definition cumsum :: "rat list \<Rightarrow> rat list" where
  "cumsum p = cumsum_from 0 p"

text \<open>
  \<^verbatim>\<open>cdf.searchsorted(u, side='right')\<close> on a non-decreasing array: the number of
  leading entries that are at most \<open>u\<close>.
\<close>

definition searchsorted_right :: "rat list \<Rightarrow> rat \<Rightarrow> nat" where
  "searchsorted_right cdf u = length (takeWhile (\<lambda>c. c \<le> u) cdf)"

text \<open>
  \<^verbatim>\<open>rng.choice(a, p=p)\<close>: the library checks the weights, builds the normalised
  cumulative sums, draws one double and returns the entry at the position where the
  double falls.
\<close>

definition rng_choice_p :: "'g bitgen \<Rightarrow> 'a list \<Rightarrow> rat list \<Rightarrow> 'g \<Rightarrow> py_error + ('a \<times> 'g)" where
  "rng_choice_p bg a p g =
     (if a = [] \<or> length p \<noteq> length a \<or> list_ex (\<lambda>x. x < 0) p \<or> sum_list p \<noteq> 1
      then Inl ValueError
      else (case next_double bg g of (u, g') \<Rightarrow>
        (let cdf = cumsum p;
             cdf = map (\<lambda>c. c / last cdf) cdf;
             idx = searchsorted_right cdf u
         in if idx < length a then Inr (a ! idx, g') else Inl IndexError)))"

text \<open>\<^verbatim>\<open>rng.choice(a, replace=True)\<close> without weights: a uniform position.\<close>

definition rng_choice :: "'g bitgen \<Rightarrow> 'a list \<Rightarrow> 'g \<Rightarrow> py_error + ('a \<times> 'g)" where
  "rng_choice bg a g =
     (if a = [] then Inl ValueError
      else (case next_bounded bg (length a) g of (k, g') \<Rightarrow>
        if k < length a then Inr (a ! k, g') else Inl IndexError))"

text \<open>
  A loop whose body draws from the generator: the state is threaded from one iteration to
  the next, and the first exception ends the loop.
\<close>

fun map_rng :: "('a \<Rightarrow> 'g \<Rightarrow> py_error + ('b \<times> 'g)) \<Rightarrow> 'a list \<Rightarrow> 'g \<Rightarrow> py_error + ('b list \<times> 'g)" where
  "map_rng f [] g = Inr ([], g)"
| "map_rng f (x # xs) g =
     (case f x g of
        Inl e \<Rightarrow> Inl e
      | Inr (y, g1) \<Rightarrow>
          (case map_rng f xs g1 of Inl e \<Rightarrow> Inl e | Inr (ys, g2) \<Rightarrow> Inr (y # ys, g2)))"

text \<open>A call with \<^verbatim>\<open>size=n\<close>: \<open>n\<close> draws in sequence; none for \<open>n = 0\<close>.\<close>

definition draws :: "('g \<Rightarrow> py_error + ('b \<times> 'g)) \<Rightarrow> nat \<Rightarrow> 'g \<Rightarrow> py_error + ('b list \<times> 'g)" where
  "draws f n g = map_rng (\<lambda>_. f) (replicate n ()) g"


section \<open>The generator: tables\<close>

definition stores :: "(string \<times> string) list" where
  "stores =
    [(''S001'', ''Downtown''), (''S002'', ''Uptown''), (''S003'', ''Midtown''),
     (''S004'', ''Riverside''), (''S005'', ''Tech Park''), (''S006'', ''Old Town'')]"

definition store_ids :: "string list" where
  "store_ids = map fst stores"

definition store_locs :: "string \<rightharpoonup> string" where
  "store_locs = map_of stores"

definition n_customers :: nat where
  "n_customers = 5000"

text \<open>
  \<^verbatim>\<open>str(i)\<close> for \<open>i \<ge> 0\<close>, and \<^verbatim>\<open>s.zfill(width)\<close>: the zeros go to the left of
  the text, after its sign if it starts with one.
\<close>

definition digit_char :: "nat \<Rightarrow> char" where
  "digit_char d = char_of (48 + d)"

fun str_nat :: "nat \<Rightarrow> string" where
  "str_nat n = (if n < 10 then [digit_char n] else str_nat (n div 10) @ [digit_char (n mod 10)])"

declare str_nat.simps [simp del]

definition zfill :: "nat \<Rightarrow> string \<Rightarrow> string" where
  "zfill width s =
     (case s of
        [] \<Rightarrow> replicate width (CHR ''0'')
      | c # rest \<Rightarrow>
          if c = CHR ''+'' \<or> c = CHR ''-''
          then c # replicate (width - length s) (CHR ''0'') @ rest
          else replicate (width - length s) (CHR ''0'') @ s)"

text \<open>\<^verbatim>\<open>[f"C{str(i).zfill(5)}" for i in range(1, n_customers + 1)]\<close>\<close>

definition customer_ids :: "string list" where
  "customer_ids = map (\<lambda>i. ''C'' @ zfill 5 (str_nat i)) [1..<n_customers + 1]"

definition segments :: "string list" where
  "segments = [''Budget'', ''Regular'', ''Premium'']"

definition segment_probs :: "rat list" where
  "segment_probs = [35 / 100, 5 / 10, 15 / 100]"

definition store_probs :: "rat list" where
  "store_probs = [22 / 100, 18 / 100, 20 / 100, 14 / 100, 16 / 100, 10 / 100]"

definition channels :: "string list" where
  "channels = [''Online'', ''In-store'']"

definition channel_probs :: "rat list" where
  "channel_probs = [35 / 100, 65 / 100]"

definition pm :: "string list" where
  "pm = [''Card'', ''Cash'', ''Wallet'', ''UPI'']"

definition pm_probs_instore :: "rat list" where
  "pm_probs_instore = [45 / 100, 25 / 100, 15 / 100, 15 / 100]"

definition pm_probs_online :: "rat list" where
  "pm_probs_online = [55 / 100, 0, 25 / 100, 20 / 100]"


section \<open>The generator: per-transaction draws\<close>

text \<open>
  \<^verbatim>\<open>np.round(x, 2)\<close>: scale by 100, round to the nearest integer with ties to the even
  one, scale back.
\<close>

definition rint :: "rat \<Rightarrow> int" where
  "rint x =
     (let f = \<lfloor>x\<rfloor>; r = x - of_int f in
      if r < 1 / 2 then f else if 1 / 2 < r then f + 1 else if even f then f else f + 1)"

definition np_round2 :: "rat \<Rightarrow> rat" where
  "np_round2 x = of_int (rint (x * 100)) / 100"

text \<open>\<^verbatim>\<open>xs[i]\<close> on a list: a negative index counts from the end.\<close>

definition py_getitem :: "'a list \<Rightarrow> int \<Rightarrow> py_error + 'a" where
  "py_getitem xs i =
     (if 0 \<le> i \<and> i < int (length xs) then Inr (xs ! nat i)
      else if i < 0 \<and> - int (length xs) \<le> i then Inr (xs ! nat (int (length xs) + i))
      else Inl IndexError)"

text \<open>\<^verbatim>\<open>d[k]\<close> on a dictionary.\<close>

definition py_lookup :: "('k \<rightharpoonup> 'v) \<Rightarrow> 'k \<Rightarrow> py_error + 'v" where
  "py_lookup d k = (case d k of None \<Rightarrow> Inl KeyError | Some v \<Rightarrow> Inr v)"

text \<open>A comprehension \<^verbatim>\<open>[d[k] for k in ks]\<close>.\<close>

fun lookup_all :: "('k \<rightharpoonup> 'v) \<Rightarrow> 'k list \<Rightarrow> py_error + 'v list" where
  "lookup_all d [] = Inr []"
| "lookup_all d (k # ks) =
     (case py_lookup d k of
        Inl e \<Rightarrow> Inl e
      | Inr v \<Rightarrow> (case lookup_all d ks of Inl e \<Rightarrow> Inl e | Inr vs \<Rightarrow> Inr (v # vs)))"

text \<open>
  The body of the product loop:
  \<^verbatim>\<open>
    items = catalog[cat]
    idx = rng.integers(0, len(items))
    name, price = items[idx]
    price = float(np.round(price * rng.uniform(0.95, 1.10), 2))
  \<close>
\<close>

definition pick_product :: "'g bitgen \<Rightarrow> string \<Rightarrow> 'g \<Rightarrow> py_error + ((string \<times> rat) \<times> 'g)" where
  "pick_product bg cat g =
     bind_err (py_lookup (map_of catalog) cat) (\<lambda>items.
     bind_err (rng_integers bg 0 (int (length items)) g) (\<lambda>(idx, g1).
     bind_err (py_getitem items idx) (\<lambda>(name, price).
     bind_err (rng_uniform bg (95 / 100) (110 / 100) g1) (\<lambda>(noise, g2).
       Inr ((name, np_round2 (price * noise)), g2)))))"

text \<open>The body of the quantity loop.\<close>

definition draw_quantity :: "'g bitgen \<Rightarrow> string \<Rightarrow> 'g \<Rightarrow> py_error + (int \<times> 'g)" where
  "draw_quantity bg cat g =
     (if cat \<in> set [''Groceries'', ''Beverages'', ''Household'', ''Personal Care'']
      then rng_integers bg 1 6 g
      else if cat = ''Clothing'' then rng_integers bg 1 4 g
      else rng_integers bg 1 3 g)"

text \<open>The body of the discount loop.\<close>

definition draw_discount :: "'g bitgen \<Rightarrow> string \<Rightarrow> 'g \<Rightarrow> py_error + (rat \<times> 'g)" where
  "draw_discount bg cat g =
     (if cat = ''Groceries''
      then rng_choice_p bg [0, 5 / 100, 10 / 100] [75 / 100, 18 / 100, 7 / 100] g
      else if cat \<in> set [''Beverages'', ''Household'', ''Personal Care'']
      then rng_choice_p bg [0, 5 / 100, 10 / 100, 15 / 100] [55 / 100, 25 / 100, 15 / 100, 5 / 100] g
      else if cat = ''Clothing''
      then rng_choice_p bg [0, 10 / 100, 20 / 100, 30 / 100] [35 / 100, 35 / 100, 20 / 100, 10 / 100] g
      else rng_choice_p bg [0, 5 / 100, 10 / 100, 15 / 100, 20 / 100]
             [40 / 100, 25 / 100, 20 / 100, 10 / 100, 5 / 100] g)"

text \<open>The bodies of the category loop and of the payment loop.\<close>

definition draw_category :: "'g bitgen \<Rightarrow> rat list \<Rightarrow> string \<Rightarrow> 'g \<Rightarrow> py_error + (string \<times> 'g)" where
  "draw_category bg online_probs ch g =
     rng_choice_p bg categories (if ch = ''Online'' then online_probs else base_cat_probs) g"

definition draw_payment :: "'g bitgen \<Rightarrow> string \<Rightarrow> 'g \<Rightarrow> py_error + (string \<times> 'g)" where
  "draw_payment bg ch g =
     rng_choice_p bg pm (if ch = ''Online'' then pm_probs_online else pm_probs_instore) g"


section \<open>The generator: the table\<close>

text \<open>
  One row of the frame. The keys of the dictionary given to \<^verbatim>\<open>pd.DataFrame\<close> are the
  field names; \<open>date\<close> is a day number (\<^verbatim>\<open>datetime64[D]\<close>: days since 1970-01-01).
\<close>

record txn =
  transaction_id :: string
  date :: int
  store_id :: string
  store_location :: string
  transaction_type :: string
  customer_id :: string
  customer_segment :: string
  product_category :: string
  product_name :: string
  unit_price :: rat
  quantity :: int
  discount_pct :: rat
  sales_amount :: rat
  payment_method :: string

text \<open>The columns, before they are put into a frame.\<close>

record columns =
  col_transaction_id :: "string list"
  col_date :: "int list"
  col_store_id :: "string list"
  col_store_location :: "string list"
  col_transaction_type :: "string list"
  col_customer_id :: "string list"
  col_customer_segment :: "string list"
  col_product_category :: "string list"
  col_product_name :: "string list"
  col_unit_price :: "rat list"
  col_quantity :: "int list"
  col_discount_pct :: "rat list"
  col_sales_amount :: "rat list"
  col_payment_method :: "string list"

definition row_at :: "columns \<Rightarrow> nat \<Rightarrow> txn" where
  "row_at c i =
     \<lparr>transaction_id = col_transaction_id c ! i, date = col_date c ! i,
      store_id = col_store_id c ! i, store_location = col_store_location c ! i,
      transaction_type = col_transaction_type c ! i, customer_id = col_customer_id c ! i,
      customer_segment = col_customer_segment c ! i,
      product_category = col_product_category c ! i, product_name = col_product_name c ! i,
      unit_price = col_unit_price c ! i, quantity = col_quantity c ! i,
      discount_pct = col_discount_pct c ! i, sales_amount = col_sales_amount c ! i,
      payment_method = col_payment_method c ! i\<rparr>"

text \<open>\<^verbatim>\<open>pd.DataFrame({...})\<close>: columns of one length, or \<^verbatim>\<open>ValueError\<close>.\<close>

definition data_frame :: "columns \<Rightarrow> py_error + txn list" where
  "data_frame c =
     (let n = length (col_transaction_id c) in
      if length (col_date c) = n \<and> length (col_store_id c) = n
         \<and> length (col_store_location c) = n \<and> length (col_transaction_type c) = n
         \<and> length (col_customer_id c) = n \<and> length (col_customer_segment c) = n
         \<and> length (col_product_category c) = n \<and> length (col_product_name c) = n
         \<and> length (col_unit_price c) = n \<and> length (col_quantity c) = n
         \<and> length (col_discount_pct c) = n \<and> length (col_sales_amount c) = n
         \<and> length (col_payment_method c) = n
      then Inr (map (row_at c) [0..<n]) else Inl ValueError)"

text \<open>
  \<^verbatim>\<open>df.sort_values("date")\<close>. The rows come out in the order of their dates, and the rows
  of one date in the order of the ranks the library gives them: the row positions are
  sorted by rank, then (keeping that order among equals) by date.
\<close>

definition sort_values_date :: "'g bitgen \<Rightarrow> txn list \<Rightarrow> txn list" where
  "sort_values_date bg df =
     map (\<lambda>i. df ! i)
       (sort_key (\<lambda>i. date (df ! i)) (sort_key (tie_order bg (map date df)) [0..<length df]))"

text \<open>
  The body of \<^verbatim>\<open>generate_urbanmart_sales\<close> up to the dictionary of columns, in the
  order of the source. \<open>start\<close> and \<open>end_date\<close> are the day numbers
  \<^verbatim>\<open>np.datetime64\<close> makes of the two date strings.
\<close>

definition draw_columns :: "'g bitgen \<Rightarrow> nat \<Rightarrow> int \<Rightarrow> int \<Rightarrow> int \<Rightarrow> py_error + columns" where
  "draw_columns bg n_transactions seed start end_date =
     bind_err (default_rng bg seed) (\<lambda>g0.
     bind_err (draws (rng_choice_p bg segments segment_probs) n_customers g0)
       (\<lambda>(segment_of_customer, g1).
     let customer_map = map_of (zip customer_ids segment_of_customer);
         days = end_date - start + 1 in
     bind_err (draws (rng_integers bg 0 days) n_transactions g1) (\<lambda>(random_days, g2).
     let dates = map (\<lambda>d. start + d) random_days in
     bind_err (draws (rng_choice_p bg store_ids store_probs) n_transactions g2) (\<lambda>(txn_store_ids, g3).
     bind_err (draws (rng_choice_p bg channels channel_probs) n_transactions g3) (\<lambda>(txn_channels, g4).
     bind_err cat_probs_online (\<lambda>online_probs.
     bind_err (map_rng (draw_category bg online_probs) txn_channels g4) (\<lambda>(txn_categories, g5).
     bind_err (map_rng (pick_product bg) txn_categories g5) (\<lambda>(products, g6).
     bind_err (map_rng (draw_quantity bg) txn_categories g6) (\<lambda>(qty, g7).
     bind_err (map_rng (draw_discount bg) txn_categories g7) (\<lambda>(discounts, g8).
     bind_err (draws (rng_choice bg customer_ids) n_transactions g8) (\<lambda>(txn_customers, g9).
     bind_err (lookup_all customer_map txn_customers) (\<lambda>txn_segments.
     bind_err (map_rng (draw_payment bg) txn_channels g9) (\<lambda>(payment_methods, g10).
     let unit_prices = map snd products;
         gross = map2 (\<lambda>p q. p * of_int q) unit_prices qty;
         net = map2 (\<lambda>gr d. np_round2 (gr * (1 - d))) gross discounts;
         txn_ids = map (\<lambda>i. ''T'' @ zfill 7 (str_nat i)) [1..<n_transactions + 1] in
     bind_err (lookup_all store_locs txn_store_ids) (\<lambda>locations.
     Inr \<lparr>col_transaction_id = txn_ids, col_date = dates, col_store_id = txn_store_ids,
          col_store_location = locations, col_transaction_type = txn_channels,
          col_customer_id = txn_customers, col_customer_segment = txn_segments,
          col_product_category = txn_categories, col_product_name = map fst products,
          col_unit_price = unit_prices, col_quantity = qty, col_discount_pct = discounts,
          col_sales_amount = net, col_payment_method = payment_methods\<rparr>))))))))))))))"

text \<open>The frame of the columns, sorted by date: the value the function returns.\<close>

definition generate_table :: "'g bitgen \<Rightarrow> nat \<Rightarrow> int \<Rightarrow> int \<Rightarrow> int \<Rightarrow> py_error + txn list" where
  "generate_table bg n_transactions seed start end_date =
     bind_err (draw_columns bg n_transactions seed start end_date) (\<lambda>c.
     bind_err (data_frame c) (\<lambda>df. Inr (sort_values_date bg df)))"


section \<open>What the draws of one row are\<close>

text \<open>
  \<open>generated_row bg n seed start end_date r\<close>: every field of \<open>r\<close> is the result of
  the draw the source makes for it, from some state of the generator, or the value the
  source derives from the other fields.
\<close>

definition generated_row :: "'g bitgen \<Rightarrow> nat \<Rightarrow> int \<Rightarrow> int \<Rightarrow> int \<Rightarrow> txn \<Rightarrow> bool" where
  "generated_row bg n seed start end_date r \<longleftrightarrow>
     (\<exists>i. i < n \<and> transaction_id r = ''T'' @ zfill 7 (str_nat (i + 1))) \<and>
     (\<exists>d g g'. rng_integers bg 0 (end_date - start + 1) g = Inr (d, g') \<and> date r = start + d) \<and>
     (\<exists>g g'. rng_choice_p bg store_ids store_probs g = Inr (store_id r, g')) \<and>
     store_locs (store_id r) = Some (store_location r) \<and>
     (\<exists>g g'. rng_choice_p bg channels channel_probs g = Inr (transaction_type r, g')) \<and>
     (\<exists>online_probs g g'. cat_probs_online = Inr online_probs \<and>
        draw_category bg online_probs (transaction_type r) g = Inr (product_category r, g')) \<and>
     (\<exists>g g'. pick_product bg (product_category r) g = Inr ((product_name r, unit_price r), g')) \<and>
     (\<exists>g g'. draw_quantity bg (product_category r) g = Inr (quantity r, g')) \<and>
     (\<exists>g g'. draw_discount bg (product_category r) g = Inr (discount_pct r, g')) \<and>
     (\<exists>g g'. rng_choice bg customer_ids g = Inr (customer_id r, g')) \<and>
     (\<exists>pool g'. draws (rng_choice_p bg segments segment_probs) n_customers (seed_state bg seed) = Inr (pool, g')
        \<and> map_of (zip customer_ids pool) (customer_id r) = Some (customer_segment r)) \<and>
     (\<exists>g g'. draw_payment bg (transaction_type r) g = Inr (payment_method r, g')) \<and>
     sales_amount r = np_round2 (unit_price r * of_int (quantity r) * (1 - discount_pct r))"


section \<open>The generator: writing the file\<close>

text \<open>\<^verbatim>\<open>str(i)\<close> for an integer.\<close>

definition str_int :: "int \<Rightarrow> string" where
  "str_int i = (if i < 0 then CHR ''-'' # str_nat (nat (- i)) else str_nat (nat i))"

text \<open>
  The calendar date of a day number (days since 1970-01-01, proleptic Gregorian calendar),
  as year, month and day; the integer divisions round down.
\<close>

definition civil_from_days :: "int \<Rightarrow> int \<times> int \<times> int" where
  "civil_from_days days =
     (let z = days + 719468;
          era = z div 146097;
          doe = z - era * 146097;
          yoe = (doe - doe div 1460 + doe div 36524 - doe div 146096) div 365;
          y = yoe + era * 400;
          doy = doe - (365 * yoe + yoe div 4 - yoe div 100);
          mp = (5 * doy + 2) div 153;
          d = doy - (153 * mp + 2) div 5 + 1;
          m = (if mp < 10 then mp + 3 else mp - 9)
      in (if m \<le> 2 then y + 1 else y, m, d))"

text \<open>How a date column is written: \<^verbatim>\<open>YYYY-MM-DD\<close>, each part padded with zeros.\<close>

definition iso_date :: "int \<Rightarrow> string" where
  "iso_date days =
     (case civil_from_days days of
        (y, m, d) \<Rightarrow> zfill 4 (str_int y) @ ''-'' @ zfill 2 (str_int m) @ ''-'' @ zfill 2 (str_int d))"

text \<open>
  How a float column is written: the shortest decimal that reads back as the float. For a
  value that is a whole number of hundredths (every float of the table is one) this is
  the integer part, a point, and one or two decimals.
\<close>

definition repr_cents :: "rat \<Rightarrow> string" where
  "repr_cents x =
     (let c = \<lfloor>x * 100\<rfloor>; a = nat \<bar>c\<bar>; ip = a div 100; fp = a mod 100 in
      (if c < 0 then ''-'' else []) @ str_nat ip @ ''.'' @
      (if fp mod 10 = 0 then [digit_char (fp div 10)]
       else [digit_char (fp div 10), digit_char (fp mod 10)]))"

text \<open>
  A text field of the file: written as it is, unless it holds the delimiter, a double
  quote or a line break; then it is put in double quotes, with its double quotes doubled.
\<close>

definition needs_quote :: "char \<Rightarrow> bool" where
  "needs_quote c \<longleftrightarrow> c = CHR '','' \<or> c = CHR 0x22 \<or> c = CHR 0x0A \<or> c = CHR 0x0D"

definition csv_field :: "string \<Rightarrow> string" where
  "csv_field s =
     (if list_ex needs_quote s
      then [CHR 0x22] @ concat (map (\<lambda>c. if c = CHR 0x22 then [c, c] else [c]) s) @ [CHR 0x22]
      else s)"

text \<open>\<^verbatim>\<open>sep.join(xs)\<close>\<close>

fun py_join :: "string \<Rightarrow> string list \<Rightarrow> string" where
  "py_join sep [] = []"
| "py_join sep [x] = x"
| "py_join sep (x # y # ys) = x @ sep @ py_join sep (y # ys)"

text \<open>The keys of the dictionary given to \<^verbatim>\<open>pd.DataFrame\<close>, in their order.\<close>

definition csv_columns :: "string list" where
  "csv_columns =
     [''transaction_id'', ''date'', ''store_id'', ''store_location'', ''transaction_type'',
      ''customer_id'', ''customer_segment'', ''product_category'', ''product_name'',
      ''unit_price'', ''quantity'', ''discount_pct'', ''sales_amount'', ''payment_method'']"

definition csv_cells :: "txn \<Rightarrow> string list" where
  "csv_cells r =
     [csv_field (transaction_id r), iso_date (date r), csv_field (store_id r),
      csv_field (store_location r), csv_field (transaction_type r), csv_field (customer_id r),
      csv_field (customer_segment r), csv_field (product_category r),
      csv_field (product_name r), repr_cents (unit_price r), str_int (quantity r),
      repr_cents (discount_pct r), repr_cents (sales_amount r), csv_field (payment_method r)]"

definition csv_header :: string where
  "csv_header = py_join '','' (map csv_field csv_columns)"

definition csv_line :: "txn \<Rightarrow> string" where
  "csv_line r = py_join '','' (csv_cells r)"

text \<open>
  \<^verbatim>\<open>df.to_csv(out_path, index=False)\<close>: the header line, then one line per row, each
  ended by a line feed; no index column.
\<close>

definition to_csv :: "txn list \<Rightarrow> string" where
  "to_csv df = concat (map (\<lambda>line. line @ [CHR 0x0A]) (csv_header # map csv_line df))"

text \<open>
  What the function touches outside itself: the files (path to content), and the record
  of the calls of the generator (path, count, seed, first and last day).
\<close>

record world =
  files :: "string \<rightharpoonup> string"
  calls :: "(string \<times> nat \<times> int \<times> int \<times> int) list"

text \<open>
  \<^verbatim>\<open>generate_urbanmart_sales(out_path, n_transactions, seed, start_date, end_date)\<close>: the
  frame is written to \<open>out_path\<close> and returned. An exception leaves the files as they were.
\<close>

definition generate_urbanmart_sales ::
  "'g bitgen \<Rightarrow> world \<Rightarrow> string \<Rightarrow> nat \<Rightarrow> int \<Rightarrow> int \<Rightarrow> int \<Rightarrow> (py_error + txn list) \<times> world" where
  "generate_urbanmart_sales bg w out_path n_transactions seed start end_date =
     (let w1 = w\<lparr>calls := calls w @ [(out_path, n_transactions, seed, start, end_date)]\<rparr> in
      case generate_table bg n_transactions seed start end_date of
        Inl e \<Rightarrow> (Inl e, w1)
      | Inr df \<Rightarrow> (Inr df, w1\<lparr>files := (files w1)(out_path \<mapsto> to_csv df)\<rparr>))"







section \<open>The two loaders\<close>

text \<open>
  \<^verbatim>\<open>s.split(sep)\<close> for a separator of one character, and the cells of a text without
  quoted fields: its lines, each split at the commas.
\<close>

fun split_on :: "char \<Rightarrow> string \<Rightarrow> string list" where
  "split_on sep [] = [[]]"
| "split_on sep (x # xs) =
     (if x = sep then [] # split_on sep xs
      else (case split_on sep xs of [] \<Rightarrow> [[x]] | w # ws \<Rightarrow> (x # w) # ws))"

definition text_lines :: "string \<Rightarrow> string list" where
  "text_lines s = (let ls = split_on (CHR 0x0A) s in if last ls = [] then butlast ls else ls)"

definition parse_csv :: "string \<Rightarrow> string list list" where
  "parse_csv s = map (split_on (CHR '','')) (text_lines s)"







section \<open>The format of the file, for the statements about it\<close>

text \<open>A decimal digit, and the shape \<^verbatim>\<open>YYYY-MM-DD\<close>: four digits, two and two, with dashes.\<close>

definition is_digit :: "char \<Rightarrow> bool" where
  "is_digit c = (let n = (of_char c :: nat) in 48 \<le> n \<and> n \<le> 57)"

definition is_iso_date :: "string \<Rightarrow> bool" where
  "is_iso_date s \<longleftrightarrow>
     length s = 10 \<and> list_all is_digit (take 4 s) \<and> s ! 4 = CHR ''-''
     \<and> list_all is_digit (take 2 (drop 5 s)) \<and> s ! 7 = CHR ''-''
     \<and> list_all is_digit (drop 8 s)"

text \<open>A text that is written to the file as it is.\<close>

definition plain :: "string \<Rightarrow> bool" where
  "plain s \<longleftrightarrow> \<not> list_ex needs_quote s"

text \<open>The fourteen values of a row as texts, before any quoting.\<close>

definition raw_cells :: "txn \<Rightarrow> string list" where
  "raw_cells r =
     [transaction_id r, iso_date (date r), store_id r, store_location r, transaction_type r,
      customer_id r, customer_segment r, product_category r, product_name r,
      repr_cents (unit_price r), str_int (quantity r), repr_cents (discount_pct r),
      repr_cents (sales_amount r), payment_method r]"

text \<open>
  The fourteen column names as section 3 of the specification lists them; the fifth is
  \<^verbatim>\<open>channel\<close> there.
\<close>

definition spec_columns :: "string list" where
  "spec_columns =
     [''transaction_id'', ''date'', ''store_id'', ''store_location'', ''channel'',
      ''customer_id'', ''customer_segment'', ''product_category'', ''product_name'',
      ''unit_price'', ''quantity'', ''discount_pct'', ''sales_amount'', ''payment_method'']"


section \<open>A constant generator, for concrete runs\<close>

text \<open>
  The simplest well-formed instance of the random source: every double is \<open>u\<close>, every
  bounded integer is \<open>k\<close> (reduced into the range asked for), and there is one state.
\<close>

definition const_bitgen :: "rat \<Rightarrow> nat \<Rightarrow> unit bitgen" where
  "const_bitgen u k =
     \<lparr>seed_state = (\<lambda>seed. ()), next_double = (\<lambda>g. (u, g)),
      next_bounded = (\<lambda>bound g. (if bound = 0 then 0 else k mod bound, g)),
      tie_order = (\<lambda>dates i. i)\<rparr>"




text \<open>The rows of two runs of one transaction, with the doubles 0.9 and 0.3.\<close>

definition clothing_row :: txn where
  "clothing_row =
     \<lparr>transaction_id = ''T0000001'', date = 19723, store_id = ''S006'',
      store_location = ''Old Town'', transaction_type = ''In-store'',
      customer_id = ''C00001'', customer_segment = ''Premium'',
      product_category = ''Clothing'', product_name = ''T-Shirt'',
      unit_price = 651 / 50, quantity = 1, discount_pct = 3 / 10,
      sales_amount = 911 / 100, payment_method = ''UPI''\<rparr>"

definition online_row :: txn where
  "online_row =
     \<lparr>transaction_id = ''T0000001'', date = 19723, store_id = ''S002'',
      store_location = ''Uptown'', transaction_type = ''Online'',
      customer_id = ''C00001'', customer_segment = ''Budget'',
      product_category = ''Beverages'', product_name = ''Sparkling Water 6-pack'',
      unit_price = 199 / 50, quantity = 1, discount_pct = 0,
      sales_amount = 199 / 50, payment_method = ''Card''\<rparr>"

section \<open>Theorems\<close>

subsection \<open>Evaluation of the constant tables\<close>

lemma categories_eval:
  "categories = [''Groceries'', ''Beverages'', ''Household'', ''Personal Care'', ''Electronics'', ''Clothing'']"
  by (simp add: categories_def catalog_def)

lemma cat_probs_shifted_eval:
  "cat_probs_shifted = Inr [29 / 100, 14 / 100, 14 / 100, 14 / 100, 17 / 100, 12 / 100]"
  by (simp add: cat_probs_shifted_def categories_eval base_cat_probs_def)

lemma cat_probs_online_eval:
  "cat_probs_online = Inr [29 / 100, 14 / 100, 14 / 100, 14 / 100, 17 / 100, 12 / 100]"
  by (simp add: cat_probs_online_def cat_probs_shifted_eval normalize_def)

subsection \<open>Loops over the generator and the rows of the table\<close>

lemma bind_err_Inr_iff: "bind_err m f = Inr y \<longleftrightarrow> (\<exists>x. m = Inr x \<and> f x = Inr y)"
  by (cases m) (simp_all add: bind_err_def)

lemma map_rng_length: "map_rng f xs g = Inr (ys, g') \<Longrightarrow> length ys = length xs"
  by (induction xs arbitrary: g ys) (auto split: sum.splits prod.splits)

lemma map_rng_nth:
  "map_rng f xs g = Inr (ys, g') \<Longrightarrow> i < length xs \<Longrightarrow> \<exists>g1 g2. f (xs ! i) g1 = Inr (ys ! i, g2)"
proof (induction xs arbitrary: g ys i)
  case Nil
  then show ?case by simp
next
  case (Cons x xs)
  from Cons.prems(1) obtain y g1 zs where
    fx: "f x g = Inr (y, g1)" and rest: "map_rng f xs g1 = Inr (zs, g')" and ys: "ys = y # zs"
    by (auto split: sum.splits prod.splits)
  show ?case
  proof (cases i)
    case 0
    with fx ys show ?thesis by auto
  next
    case (Suc j)
    with Cons.prems(2) have "j < length xs" by simp
    from Cons.IH [OF rest this] Suc ys show ?thesis by simp
  qed
qed

lemma draws_length: "draws f n g = Inr (ys, g') \<Longrightarrow> length ys = n"
  unfolding draws_def by (drule map_rng_length) simp

lemma draws_nth: "draws f n g = Inr (ys, g') \<Longrightarrow> i < n \<Longrightarrow> \<exists>g1 g2. f g1 = Inr (ys ! i, g2)"
  unfolding draws_def by (drule map_rng_nth [where i = i]) simp_all

lemma lookup_all_length: "lookup_all d ks = Inr vs \<Longrightarrow> length vs = length ks"
  by (induction ks arbitrary: vs) (auto split: sum.splits)

lemma lookup_all_nth: "lookup_all d ks = Inr vs \<Longrightarrow> i < length ks \<Longrightarrow> d (ks ! i) = Some (vs ! i)"
proof (induction ks arbitrary: vs i)
  case Nil
  then show ?case by simp
next
  case (Cons k ks)
  then show ?case
    by (cases i) (auto simp: py_lookup_def split: sum.splits option.splits)
qed

lemma data_frame_Inr:
  "data_frame c = Inr rows \<Longrightarrow> rows = map (row_at c) [0..<length (col_transaction_id c)]"
  by (simp add: data_frame_def Let_def split: if_splits)



lemma draw_columns_InrD:
  assumes "draw_columns bg n seed start end_date = Inr c"
  shows "\<exists>pool g1 random_days g2 g3 g4 online_probs g5 products g6 g7 g8 g9 g10.
    draws (rng_choice_p bg segments segment_probs) n_customers (seed_state bg seed) = Inr (pool, g1)
    \<and> draws (rng_integers bg 0 (end_date - start + 1)) n g1 = Inr (random_days, g2)
    \<and> draws (rng_choice_p bg store_ids store_probs) n g2 = Inr (col_store_id c, g3)
    \<and> draws (rng_choice_p bg channels channel_probs) n g3 = Inr (col_transaction_type c, g4)
    \<and> cat_probs_online = Inr online_probs
    \<and> map_rng (draw_category bg online_probs) (col_transaction_type c) g4 = Inr (col_product_category c, g5)
    \<and> map_rng (pick_product bg) (col_product_category c) g5 = Inr (products, g6)
    \<and> map_rng (draw_quantity bg) (col_product_category c) g6 = Inr (col_quantity c, g7)
    \<and> map_rng (draw_discount bg) (col_product_category c) g7 = Inr (col_discount_pct c, g8)
    \<and> draws (rng_choice bg customer_ids) n g8 = Inr (col_customer_id c, g9)
    \<and> lookup_all (map_of (zip customer_ids pool)) (col_customer_id c) = Inr (col_customer_segment c)
    \<and> map_rng (draw_payment bg) (col_transaction_type c) g9 = Inr (col_payment_method c, g10)
    \<and> lookup_all store_locs (col_store_id c) = Inr (col_store_location c)
    \<and> col_transaction_id c = map (\<lambda>i. ''T'' @ zfill 7 (str_nat i)) [1..<n + 1]
    \<and> col_date c = map (\<lambda>d. start + d) random_days
    \<and> col_product_name c = map fst products
    \<and> col_unit_price c = map snd products
    \<and> col_sales_amount c = map2 (\<lambda>gr d. np_round2 (gr * (1 - d)))
          (map2 (\<lambda>p q. p * of_int q) (map snd products) (col_quantity c)) (col_discount_pct c)"
  using assms
  apply (clarsimp simp: draw_columns_def default_rng_def bind_err_Inr_iff Let_def
      simp del: upt_Suc split: if_splits)
  apply (rule exI conjI refl | assumption)+
  done


lemma draw_columns_lengths:
  assumes "draw_columns bg n seed start end_date = Inr c"
  shows "length (col_transaction_id c) = n \<and> length (col_date c) = n \<and> length (col_store_id c) = n
    \<and> length (col_store_location c) = n \<and> length (col_transaction_type c) = n
    \<and> length (col_customer_id c) = n \<and> length (col_customer_segment c) = n
    \<and> length (col_product_category c) = n \<and> length (col_product_name c) = n
    \<and> length (col_unit_price c) = n \<and> length (col_quantity c) = n
    \<and> length (col_discount_pct c) = n \<and> length (col_sales_amount c) = n
    \<and> length (col_payment_method c) = n"
proof -
  from draw_columns_InrD [OF assms] obtain pool g1 random_days g2 g3 g4 online_probs g5 products g6 g7 g8 g9 g10
    where days: "draws (rng_integers bg 0 (end_date - start + 1)) n g1 = Inr (random_days, g2)"
      and sto: "draws (rng_choice_p bg store_ids store_probs) n g2 = Inr (col_store_id c, g3)"
      and cha: "draws (rng_choice_p bg channels channel_probs) n g3 = Inr (col_transaction_type c, g4)"
      and cat: "map_rng (draw_category bg online_probs) (col_transaction_type c) g4 = Inr (col_product_category c, g5)"
      and pro: "map_rng (pick_product bg) (col_product_category c) g5 = Inr (products, g6)"
      and qty: "map_rng (draw_quantity bg) (col_product_category c) g6 = Inr (col_quantity c, g7)"
      and dis: "map_rng (draw_discount bg) (col_product_category c) g7 = Inr (col_discount_pct c, g8)"
      and cus: "draws (rng_choice bg customer_ids) n g8 = Inr (col_customer_id c, g9)"
      and seg: "lookup_all (map_of (zip customer_ids pool)) (col_customer_id c) = Inr (col_customer_segment c)"
      and pay: "map_rng (draw_payment bg) (col_transaction_type c) g9 = Inr (col_payment_method c, g10)"
      and loc: "lookup_all store_locs (col_store_id c) = Inr (col_store_location c)"
      and ids: "col_transaction_id c = map (\<lambda>i. ''T'' @ zfill 7 (str_nat i)) [1..<n + 1]"
      and dat: "col_date c = map (\<lambda>d. start + d) random_days"
      and nam: "col_product_name c = map fst products"
      and pri: "col_unit_price c = map snd products"
      and net: "col_sales_amount c = map2 (\<lambda>gr d. np_round2 (gr * (1 - d)))
          (map2 (\<lambda>p q. p * of_int q) (map snd products) (col_quantity c)) (col_discount_pct c)"
    by blast
  have l1: "length random_days = n" using draws_length [OF days] .
  have l2: "length (col_store_id c) = n" using draws_length [OF sto] .
  have l3: "length (col_transaction_type c) = n" using draws_length [OF cha] .
  have l4: "length (col_product_category c) = n" using map_rng_length [OF cat] l3 by simp
  have l5: "length products = n" using map_rng_length [OF pro] l4 by simp
  have l6: "length (col_quantity c) = n" using map_rng_length [OF qty] l4 by simp
  have l7: "length (col_discount_pct c) = n" using map_rng_length [OF dis] l4 by simp
  have l8: "length (col_customer_id c) = n" using draws_length [OF cus] .
  have l9: "length (col_customer_segment c) = n" using lookup_all_length [OF seg] l8 by simp
  have l10: "length (col_payment_method c) = n" using map_rng_length [OF pay] l3 by simp
  have l11: "length (col_store_location c) = n" using lookup_all_length [OF loc] l2 by simp
  show ?thesis
    using l1 l2 l3 l4 l5 l6 l7 l8 l9 l10 l11
    by (simp add: ids dat nam pri net del: upt_Suc)
qed

lemma draw_columns_row:
  assumes dc: "draw_columns bg n seed start end_date = Inr c" and i: "i < n"
  shows "generated_row bg n seed start end_date (row_at c i)"
proof -
  from draw_columns_InrD [OF dc] obtain pool g1 random_days g2 g3 g4 online_probs g5 products g6 g7 g8 g9 g10
    where pool: "draws (rng_choice_p bg segments segment_probs) n_customers (seed_state bg seed) = Inr (pool, g1)"
      and days: "draws (rng_integers bg 0 (end_date - start + 1)) n g1 = Inr (random_days, g2)"
      and sto: "draws (rng_choice_p bg store_ids store_probs) n g2 = Inr (col_store_id c, g3)"
      and cha: "draws (rng_choice_p bg channels channel_probs) n g3 = Inr (col_transaction_type c, g4)"
      and onl: "cat_probs_online = Inr online_probs"
      and cat: "map_rng (draw_category bg online_probs) (col_transaction_type c) g4 = Inr (col_product_category c, g5)"
      and pro: "map_rng (pick_product bg) (col_product_category c) g5 = Inr (products, g6)"
      and qty: "map_rng (draw_quantity bg) (col_product_category c) g6 = Inr (col_quantity c, g7)"
      and dis: "map_rng (draw_discount bg) (col_product_category c) g7 = Inr (col_discount_pct c, g8)"
      and cus: "draws (rng_choice bg customer_ids) n g8 = Inr (col_customer_id c, g9)"
      and seg: "lookup_all (map_of (zip customer_ids pool)) (col_customer_id c) = Inr (col_customer_segment c)"
      and pay: "map_rng (draw_payment bg) (col_transaction_type c) g9 = Inr (col_payment_method c, g10)"
      and loc: "lookup_all store_locs (col_store_id c) = Inr (col_store_location c)"
      and ids: "col_transaction_id c = map (\<lambda>i. ''T'' @ zfill 7 (str_nat i)) [1..<n + 1]"
      and dat: "col_date c = map (\<lambda>d. start + d) random_days"
      and nam: "col_product_name c = map fst products"
      and pri: "col_unit_price c = map snd products"
      and net: "col_sales_amount c = map2 (\<lambda>gr d. np_round2 (gr * (1 - d)))
          (map2 (\<lambda>p q. p * of_int q) (map snd products) (col_quantity c)) (col_discount_pct c)"
    by blast
  note len = draw_columns_lengths [OF dc]
  have lrd: "length random_days = n" using draws_length [OF days] .
  have lpr: "length products = n" using map_rng_length [OF pro] len by simp
  have f_id: "\<exists>j. j < n \<and> transaction_id (row_at c i) = ''T'' @ zfill 7 (str_nat (j + 1))"
    using i by (intro exI [of _ i]) (simp add: row_at_def ids del: upt_Suc)
  have f_date: "\<exists>d g g'. rng_integers bg 0 (end_date - start + 1) g = Inr (d, g') \<and> date (row_at c i) = start + d"
    using draws_nth [OF days i] i lrd by (auto simp: row_at_def dat)
  have f_store: "\<exists>g g'. rng_choice_p bg store_ids store_probs g = Inr (store_id (row_at c i), g')"
    using draws_nth [OF sto i] by (simp add: row_at_def)
  have f_loc: "store_locs (store_id (row_at c i)) = Some (store_location (row_at c i))"
    using lookup_all_nth [OF loc, of i] i len by (simp add: row_at_def)
  have f_ch: "\<exists>g g'. rng_choice_p bg channels channel_probs g = Inr (transaction_type (row_at c i), g')"
    using draws_nth [OF cha i] by (simp add: row_at_def)
  have f_cat: "\<exists>online_probs g g'. cat_probs_online = Inr online_probs \<and>
        draw_category bg online_probs (transaction_type (row_at c i)) g = Inr (product_category (row_at c i), g')"
    using map_rng_nth [OF cat, of i] i len onl by (auto simp: row_at_def)
  have f_prod: "\<exists>g g'. pick_product bg (product_category (row_at c i)) g
      = Inr ((product_name (row_at c i), unit_price (row_at c i)), g')"
    using map_rng_nth [OF pro, of i] i len lpr by (simp add: row_at_def nam pri)
  have f_qty: "\<exists>g g'. draw_quantity bg (product_category (row_at c i)) g = Inr (quantity (row_at c i), g')"
    using map_rng_nth [OF qty, of i] i len by (simp add: row_at_def)
  have f_dis: "\<exists>g g'. draw_discount bg (product_category (row_at c i)) g = Inr (discount_pct (row_at c i), g')"
    using map_rng_nth [OF dis, of i] i len by (simp add: row_at_def)
  have f_cus: "\<exists>g g'. rng_choice bg customer_ids g = Inr (customer_id (row_at c i), g')"
    using draws_nth [OF cus i] by (simp add: row_at_def)
  have f_seg: "\<exists>pool g'. draws (rng_choice_p bg segments segment_probs) n_customers (seed_state bg seed) = Inr (pool, g')
        \<and> map_of (zip customer_ids pool) (customer_id (row_at c i)) = Some (customer_segment (row_at c i))"
    using lookup_all_nth [OF seg, of i] i len pool by (auto simp: row_at_def)
  have f_pay: "\<exists>g g'. draw_payment bg (transaction_type (row_at c i)) g = Inr (payment_method (row_at c i), g')"
    using map_rng_nth [OF pay, of i] i len by (simp add: row_at_def)
  have f_net: "sales_amount (row_at c i)
      = np_round2 (unit_price (row_at c i) * of_int (quantity (row_at c i)) * (1 - discount_pct (row_at c i)))"
    using i len lpr by (simp add: row_at_def net pri)
  show ?thesis
    unfolding generated_row_def
    using f_id f_date f_store f_loc f_ch f_cat f_prod f_qty f_dis f_cus f_seg f_pay f_net
    by blast
qed

lemma length_sort_values_date: "length (sort_values_date bg df) = length df"
  by (simp add: sort_values_date_def)

lemma set_sort_values_date: "set (sort_values_date bg df) = set df"
proof -
  have "set (sort_values_date bg df) = (\<lambda>i. df ! i) ` {0..<length df}"
    by (simp add: sort_values_date_def)
  also have "\<dots> = set df"
    by (auto simp: set_conv_nth)
  finally show ?thesis .
qed

lemma sort_values_date_single: "sort_values_date bg [r] = [r]"
  by (simp add: sort_values_date_def)

lemma generate_table_InrD:
  assumes "generate_table bg n seed start end_date = Inr df"
  shows "\<exists>c. draw_columns bg n seed start end_date = Inr c \<and> df = sort_values_date bg (map (row_at c) [0..<n])"
proof -
  from assms obtain c rows where dc: "draw_columns bg n seed start end_date = Inr c"
    and fr: "data_frame c = Inr rows" and df: "df = sort_values_date bg rows"
    by (auto simp: generate_table_def bind_err_Inr_iff)
  from data_frame_Inr [OF fr] draw_columns_lengths [OF dc] df dc show ?thesis by simp
qed

lemma generate_table_length:
  "generate_table bg n seed start end_date = Inr df \<Longrightarrow> length df = n"
  by (drule generate_table_InrD) (auto simp: length_sort_values_date)

lemma generate_table_rows:
  assumes gen: "generate_table bg n seed start end_date = Inr df" and r: "r \<in> set df"
  shows "generated_row bg n seed start end_date r"
proof -
  from generate_table_InrD [OF gen] obtain c where dc: "draw_columns bg n seed start end_date = Inr c"
    and df: "df = sort_values_date bg (map (row_at c) [0..<n])" by blast
  from r df obtain i where "i < n" and "r = row_at c i"
    by (auto simp: set_sort_values_date)
  with draw_columns_row [OF dc] show ?thesis by simp
qed

subsection \<open>Rounding\<close>

lemma rint_bounds: "of_int (rint x) - x \<le> 1 / 2 \<and> x - of_int (rint x) \<le> 1 / 2"
proof -
  have fl: "of_int \<lfloor>x\<rfloor> \<le> x" "x < of_int \<lfloor>x\<rfloor> + 1" by linarith+
  show ?thesis by (auto simp: rint_def Let_def; insert fl; linarith)
qed

lemma rint_of_int: "rint (of_int k) = k"
  by (simp add: rint_def)

lemma rint_mono:
  assumes "x \<le> y" shows "rint x \<le> rint y"
proof (cases "\<lfloor>x\<rfloor> = \<lfloor>y\<rfloor>")
  case True
  with assms show ?thesis by (auto simp: rint_def Let_def)
next
  case False
  with assms have "\<lfloor>x\<rfloor> + 1 \<le> \<lfloor>y\<rfloor>" using floor_mono [OF assms] by linarith
  moreover have "rint x \<le> \<lfloor>x\<rfloor> + 1" by (auto simp: rint_def Let_def)
  moreover have "\<lfloor>y\<rfloor> \<le> rint y" by (auto simp: rint_def Let_def)
  ultimately show ?thesis by linarith
qed

lemma np_round2_mono: "x \<le> y \<Longrightarrow> np_round2 x \<le> np_round2 y"
  unfolding np_round2_def using rint_mono [of "x * 100" "y * 100"]
  by (simp add: divide_right_mono)

lemma np_round2_cents: "np_round2 (of_int k / 100) = of_int k / 100"
  by (simp add: np_round2_def rint_of_int)

lemma np_round2_zero: "np_round2 0 = 0"
  using np_round2_cents [of 0] by simp

lemma np_round2_nonneg: "0 \<le> x \<Longrightarrow> 0 \<le> np_round2 x"
  using np_round2_mono [of 0 x] by (simp add: np_round2_zero)

lemma np_round2_is_cents: "\<exists>k. np_round2 x = of_int k / 100"
  by (auto simp: np_round2_def)

lemma np_round2_close: "np_round2 x - x \<le> 1 / 200 \<and> x - np_round2 x \<le> 1 / 200"
  using rint_bounds [of "x * 100"] by (simp add: np_round2_def field_simps)

subsection \<open>Draws\<close>

lemma rng_choice_p_in_set: "rng_choice_p bg a p g = Inr (x, g') \<Longrightarrow> x \<in> set a"
  by (auto simp: rng_choice_p_def Let_def split: if_splits prod.splits)

lemma rng_choice_in_set: "rng_choice bg a g = Inr (x, g') \<Longrightarrow> x \<in> set a"
  by (auto simp: rng_choice_def split: if_splits prod.splits)

lemma rng_integers_range:
  assumes "wf_bitgen bg" and "rng_integers bg low high g = Inr (k, g')"
  shows "low \<le> k \<and> k < high"
proof -
  from assms(2) have lh: "low < high"
    and k: "k = low + int (fst (next_bounded bg (nat (high - low)) g))"
    by (auto simp: rng_integers_def split: if_splits prod.splits)
  from lh have "0 < nat (high - low)" by simp
  with assms(1) have "fst (next_bounded bg (nat (high - low)) g) < nat (high - low)"
    by (simp add: wf_bitgen_def)
  with k lh show ?thesis by linarith
qed

lemma rng_uniform_range:
  assumes "wf_bitgen bg" and "rng_uniform bg low high g = Inr (x, g')" and "low < high"
  shows "low \<le> x \<and> x < high"
proof -
  define u where "u = fst (next_double bg g)"
  from assms(2) have x: "x = low + (high - low) * u"
    by (auto simp: rng_uniform_def u_def split: prod.splits)
  from assms(1) have u: "0 \<le> u" "u < 1" by (simp_all add: wf_bitgen_def u_def)
  from assms(3) u have "0 \<le> (high - low) * u" by simp
  moreover from assms(3) u have "(high - low) * u < (high - low) * 1"
    by (intro mult_strict_left_mono) simp_all
  ultimately show ?thesis using x by simp
qed


lemma catalog_prices:
  "map_of catalog cat = Some items \<Longrightarrow> (name, base) \<in> set items \<Longrightarrow> 5 / 2 \<le> base \<and> base \<le> 70"
  by (auto simp: catalog_def split: if_splits)

lemma pick_productD:
  assumes wf: "wf_bitgen bg" and pp: "pick_product bg cat g = Inr ((name, price), g')"
  shows "\<exists>items idx base noise. map_of catalog cat = Some items \<and> idx < length items
    \<and> items ! idx = (name, base) \<and> 95 / 100 \<le> noise \<and> noise < 110 / 100
    \<and> price = np_round2 (base * noise)"
proof -
  from pp obtain items idx g1 nb noise where
    items: "py_lookup (map_of catalog) cat = Inr items"
    and idx: "rng_integers bg 0 (int (length items)) g = Inr (idx, g1)"
    and item: "py_getitem items idx = Inr nb"
    and noise: "rng_uniform bg (95 / 100) (110 / 100) g1 = Inr (noise, g')"
    and res: "(name, price) = (fst nb, np_round2 (snd nb * noise))"
    by (auto simp: pick_product_def bind_err_Inr_iff split: prod.splits)
  from items have m: "map_of catalog cat = Some items"
    by (simp add: py_lookup_def split: option.splits)
  from rng_integers_range [OF wf idx] have r: "0 \<le> idx" "idx < int (length items)" by simp_all
  with item have nb: "nb = items ! nat idx" by (simp add: py_getitem_def)
  from rng_uniform_range [OF wf noise] have n: "95 / 100 \<le> noise" "noise < 110 / 100" by simp_all
  from r have "nat idx < length items" by simp
  moreover from nb res have "items ! nat idx = (name, snd nb)" "price = np_round2 (snd nb * noise)"
    by (simp_all add: prod_eq_iff)
  ultimately show ?thesis using m n by blast
qed

lemma draw_quantity_range:
  assumes "wf_bitgen bg" and "draw_quantity bg cat g = Inr (q, g')"
  shows "1 \<le> q \<and> q \<le> 5"
  using assms(2)
  by (auto simp: draw_quantity_def split: if_splits dest!: rng_integers_range [OF assms(1)])

lemma draw_discount_values:
  assumes "draw_discount bg cat g = Inr (d, g')"
  shows "d \<in> {0, 5 / 100, 10 / 100, 15 / 100, 20 / 100, 30 / 100}"
  using assms by (auto simp: draw_discount_def split: if_splits dest!: rng_choice_p_in_set)

lemma draw_discount_range:
  "draw_discount bg cat g = Inr (d, g') \<Longrightarrow> 0 \<le> d \<and> d \<le> 30 / 100"
  by (drule draw_discount_values) auto

lemma draw_payment_online:
  assumes "draw_payment bg ''Online'' g = Inr (m, g')"
  shows "m \<in> {''Card'', ''Wallet'', ''UPI''}"
  using assms
  by (auto simp: draw_payment_def rng_choice_p_def pm_def pm_probs_online_def cumsum_def
      searchsorted_right_def Let_def split: if_splits prod.splits)

subsection \<open>A concrete run\<close>

lemma wf_const_bitgen: "0 \<le> u \<Longrightarrow> u < 1 \<Longrightarrow> wf_bitgen (const_bitgen u k)"
  by (simp add: wf_bitgen_def const_bitgen_def)

lemma draws_unit:
  "draws f n (g::unit) =
     (if n = 0 then Inr ([], ())
      else (case f () of Inl e \<Rightarrow> Inl e | Inr (x, g') \<Rightarrow> Inr (replicate n x, ())))"
proof (induction n)
  case 0
  then show ?case by (simp add: draws_def)
next
  case (Suc n)
  then show ?case
    by (cases n) (auto simp: draws_def split: sum.splits prod.splits)
qed

lemma map_of_zip_replicate:
  "k \<in> set ks \<Longrightarrow> length ks \<le> n \<Longrightarrow> map_of (zip ks (replicate n v)) k = Some v"
proof (induction ks arbitrary: n)
  case Nil
  then show ?case by simp
next
  case (Cons a ks)
  then obtain m where n: "n = Suc m" by (cases n) auto
  with Cons show ?case by auto
qed

lemma length_customer_ids: "length customer_ids = n_customers"
  by (simp add: customer_ids_def)

lemma customer_ids_first: "customer_ids ! 0 = ''C00001''"
proof -
  have "customer_ids ! 0 = ''C'' @ zfill 5 (str_nat 1)"
    unfolding customer_ids_def n_customers_def by (subst nth_map) simp_all
  also have "\<dots> = ''C00001''" by code_simp
  finally show ?thesis .
qed

lemma txn_id_first: "zfill 7 (str_nat (Suc 0)) = ''0000001''"
  by code_simp

lemma n_customers_pos: "0 < n_customers"
  by (simp add: n_customers_def)

lemma customer_ids_nonempty: "customer_ids \<noteq> []"
  using length_customer_ids n_customers_pos by fastforce

lemma rng_choice_p_const:
  "rng_choice_p (const_bitgen u k) a p g =
     (if a = [] \<or> length p \<noteq> length a \<or> list_ex (\<lambda>x. x < 0) p \<or> sum_list p \<noteq> 1
      then Inl ValueError
      else if searchsorted_right (map (\<lambda>c. c / last (cumsum p)) (cumsum p)) u < length a
      then Inr (a ! searchsorted_right (map (\<lambda>c. c / last (cumsum p)) (cumsum p)) u, g)
      else Inl IndexError)"
  by (simp add: rng_choice_p_def const_bitgen_def Let_def)

lemma rng_integers_const:
  "rng_integers (const_bitgen u k) low high g =
     (if high \<le> low then Inl ValueError else Inr (low + int (k mod nat (high - low)), g))"
  by (simp add: rng_integers_def const_bitgen_def)

lemma rng_uniform_const:
  "rng_uniform (const_bitgen u k) low high g = Inr (low + (high - low) * u, g)"
  by (simp add: rng_uniform_def const_bitgen_def)

lemma rng_choice_customer_const:
  "rng_choice (const_bitgen u 0) customer_ids g = Inr (''C00001'', g)"
  using customer_ids_nonempty
  by (simp add: rng_choice_def const_bitgen_def customer_ids_first)

lemma customer_map_first:
  "map_of (zip customer_ids (replicate n_customers v)) ''C00001'' = Some v"
proof -
  have "customer_ids ! 0 \<in> set customer_ids"
    using customer_ids_nonempty by (intro nth_mem) simp
  then show ?thesis
    by (intro map_of_zip_replicate) (simp_all add: customer_ids_first length_customer_ids)
qed

lemma np_round2_evals:
  "np_round2 (651 / 50) = 651 / 50"
  "np_round2 (4557 / 500) = 911 / 100"
  by code_simp+

lemma run_clothing_columns:
  "draw_columns (const_bitgen (9 / 10) 0) 1 42 19723 20088 =
     Inr \<lparr>col_transaction_id = [''T0000001''], col_date = [19723], col_store_id = [''S006''],
          col_store_location = [''Old Town''], col_transaction_type = [''In-store''],
          col_customer_id = [''C00001''], col_customer_segment = [''Premium''],
          col_product_category = [''Clothing''], col_product_name = [''T-Shirt''],
          col_unit_price = [651 / 50], col_quantity = [1], col_discount_pct = [3 / 10],
          col_sales_amount = [911 / 100], col_payment_method = [''UPI'']\<rparr>"
proof -
  let ?bg = "const_bitgen (9 / 10) 0"
  have seg: "rng_choice_p ?bg segments segment_probs () = Inr (''Premium'', ())"
    by (simp add: rng_choice_p_const segments_def segment_probs_def cumsum_def searchsorted_right_def)
  have sto: "rng_choice_p ?bg store_ids store_probs () = Inr (''S006'', ())"
    by (simp add: rng_choice_p_const store_ids_def stores_def store_probs_def cumsum_def searchsorted_right_def)
  have cha: "rng_choice_p ?bg channels channel_probs () = Inr (''In-store'', ())"
    by (simp add: rng_choice_p_const channels_def channel_probs_def cumsum_def searchsorted_right_def)
  have cat: "\<And>q. draw_category ?bg q ''In-store'' () = Inr (''Clothing'', ())"
    by (simp add: draw_category_def rng_choice_p_const categories_eval base_cat_probs_def cumsum_def searchsorted_right_def)
  have pro: "pick_product ?bg ''Clothing'' () = Inr ((''T-Shirt'', 651 / 50), ())"
    by (simp add: pick_product_def bind_err_def py_lookup_def catalog_def rng_integers_const
        py_getitem_def rng_uniform_const np_round2_evals)
  have qty: "draw_quantity ?bg ''Clothing'' () = Inr (1, ())"
    by (simp add: draw_quantity_def rng_integers_const)
  have dis: "draw_discount ?bg ''Clothing'' () = Inr (3 / 10, ())"
    by (simp add: draw_discount_def rng_choice_p_const cumsum_def searchsorted_right_def)
  have pay: "draw_payment ?bg ''In-store'' () = Inr (''UPI'', ())"
    by (simp add: draw_payment_def rng_choice_p_const pm_def pm_probs_instore_def cumsum_def searchsorted_right_def)
  have loc: "py_lookup store_locs ''S006'' = Inr ''Old Town''"
    by (simp add: py_lookup_def store_locs_def stores_def)
  have day: "rng_integers ?bg 0 (20088 - 19723 + 1) () = Inr (0, ())"
    by (simp add: rng_integers_const)
  have cus: "\<And>v. py_lookup (map_of (zip customer_ids (replicate n_customers v))) ''C00001'' = Inr v"
    by (simp add: py_lookup_def customer_map_first)
  show ?thesis
    using n_customers_pos
    by (simp add: draw_columns_def default_rng_def bind_err_def draws_unit Let_def seg sto cha cat pro qty dis pay loc cus
        rng_integers_const rng_choice_customer_const
        cat_probs_online_eval np_round2_evals txn_id_first)
qed

lemma pick_product_index:
  assumes wf: "wf_bitgen bg" and pp: "pick_product bg cat g = Inr ((name, price), g')"
  shows "\<exists>items idx base noise g1. map_of catalog cat = Some items \<and> idx < length items
    \<and> rng_integers bg 0 (int (length items)) g = Inr (int idx, g1)
    \<and> items ! idx = (name, base) \<and> 95 / 100 \<le> noise \<and> noise < 110 / 100
    \<and> rng_uniform bg (95 / 100) (110 / 100) g1 = Inr (noise, g')
    \<and> price = np_round2 (base * noise)"
proof -
  from pp obtain items idx g1 nb noise where
    items: "py_lookup (map_of catalog) cat = Inr items"
    and idx: "rng_integers bg 0 (int (length items)) g = Inr (idx, g1)"
    and item: "py_getitem items idx = Inr nb"
    and noise: "rng_uniform bg (95 / 100) (110 / 100) g1 = Inr (noise, g')"
    and res: "(name, price) = (fst nb, np_round2 (snd nb * noise))"
    by (auto simp: pick_product_def bind_err_Inr_iff split: prod.splits)
  from items have m: "map_of catalog cat = Some items"
    by (simp add: py_lookup_def split: option.splits)
  from rng_integers_range [OF wf idx] have r: "0 \<le> idx" "idx < int (length items)" by simp_all
  with item have nb: "nb = items ! nat idx" by (simp add: py_getitem_def)
  from rng_uniform_range [OF wf noise] have n: "95 / 100 \<le> noise" "noise < 110 / 100" by simp_all
  from r have "nat idx < length items" "int (nat idx) = idx" by simp_all
  moreover from nb res have "items ! nat idx = (name, snd nb)" "price = np_round2 (snd nb * noise)"
    by (simp_all add: prod_eq_iff)
  ultimately show ?thesis using m n idx noise by metis
qed

lemma generate_table_single:
  assumes "draw_columns bg 1 seed start end_date = Inr c"
  shows "generate_table bg 1 seed start end_date = Inr [row_at c 0]"
proof -
  have "data_frame c = Inr [row_at c 0]"
    using draw_columns_lengths [OF assms] by (simp add: data_frame_def)
  then show ?thesis
    unfolding generate_table_def assms by (simp add: bind_err_def sort_values_date_single)
qed

lemma run_clothing:
  "generate_table (const_bitgen (9 / 10) 0) 1 42 19723 20088 =
     Inr [\<lparr>transaction_id = ''T0000001'', date = 19723, store_id = ''S006'',
           store_location = ''Old Town'', transaction_type = ''In-store'',
           customer_id = ''C00001'', customer_segment = ''Premium'',
           product_category = ''Clothing'', product_name = ''T-Shirt'',
           unit_price = 651 / 50, quantity = 1, discount_pct = 3 / 10,
           sales_amount = 911 / 100, payment_method = ''UPI''\<rparr>]"
  using generate_table_single [OF run_clothing_columns] by (simp add: row_at_def)

lemma np_round2_evals_online: "np_round2 (199 / 50) = 199 / 50"
  by code_simp

lemma run_online_columns:
  "draw_columns (const_bitgen (3 / 10) 0) 1 42 19723 20088 =
     Inr \<lparr>col_transaction_id = [''T0000001''], col_date = [19723], col_store_id = [''S002''],
          col_store_location = [''Uptown''], col_transaction_type = [''Online''],
          col_customer_id = [''C00001''], col_customer_segment = [''Budget''],
          col_product_category = [''Beverages''], col_product_name = [''Sparkling Water 6-pack''],
          col_unit_price = [199 / 50], col_quantity = [1], col_discount_pct = [0],
          col_sales_amount = [199 / 50], col_payment_method = [''Card'']\<rparr>"
proof -
  let ?bg = "const_bitgen (3 / 10) 0"
  have seg: "rng_choice_p ?bg segments segment_probs () = Inr (''Budget'', ())"
    by (simp add: rng_choice_p_const segments_def segment_probs_def cumsum_def searchsorted_right_def)
  have sto: "rng_choice_p ?bg store_ids store_probs () = Inr (''S002'', ())"
    by (simp add: rng_choice_p_const store_ids_def stores_def store_probs_def cumsum_def searchsorted_right_def)
  have cha: "rng_choice_p ?bg channels channel_probs () = Inr (''Online'', ())"
    by (simp add: rng_choice_p_const channels_def channel_probs_def cumsum_def searchsorted_right_def)
  have cat: "draw_category ?bg [29 / 100, 7 / 50, 7 / 50, 7 / 50, 17 / 100, 3 / 25] ''Online'' ()
      = Inr (''Beverages'', ())"
    by (simp add: draw_category_def rng_choice_p_const categories_eval cumsum_def searchsorted_right_def)
  have pro: "pick_product ?bg ''Beverages'' () = Inr ((''Sparkling Water 6-pack'', 199 / 50), ())"
    by (simp add: pick_product_def bind_err_def py_lookup_def catalog_def rng_integers_const
        py_getitem_def rng_uniform_const np_round2_evals_online)
  have qty: "draw_quantity ?bg ''Beverages'' () = Inr (1, ())"
    by (simp add: draw_quantity_def rng_integers_const)
  have dis: "draw_discount ?bg ''Beverages'' () = Inr (0, ())"
    by (simp add: draw_discount_def rng_choice_p_const cumsum_def searchsorted_right_def)
  have pay: "draw_payment ?bg ''Online'' () = Inr (''Card'', ())"
    by (simp add: draw_payment_def rng_choice_p_const pm_def pm_probs_online_def cumsum_def searchsorted_right_def)
  have loc: "py_lookup store_locs ''S002'' = Inr ''Uptown''"
    by (simp add: py_lookup_def store_locs_def stores_def)
  have cus: "\<And>v. py_lookup (map_of (zip customer_ids (replicate n_customers v))) ''C00001'' = Inr v"
    by (simp add: py_lookup_def customer_map_first)
  show ?thesis
    using n_customers_pos
    by (simp add: draw_columns_def default_rng_def bind_err_def draws_unit Let_def seg sto cha cat pro qty dis pay loc cus
        rng_integers_const rng_choice_customer_const
        cat_probs_online_eval np_round2_evals_online txn_id_first)
qed

lemma run_online:
  "generate_table (const_bitgen (3 / 10) 0) 1 42 19723 20088 =
     Inr [\<lparr>transaction_id = ''T0000001'', date = 19723, store_id = ''S002'',
           store_location = ''Uptown'', transaction_type = ''Online'',
           customer_id = ''C00001'', customer_segment = ''Budget'',
           product_category = ''Beverages'', product_name = ''Sparkling Water 6-pack'',
           unit_price = 199 / 50, quantity = 1, discount_pct = 0,
           sales_amount = 199 / 50, payment_method = ''Card''\<rparr>]"
  using generate_table_single [OF run_online_columns] by (simp add: row_at_def)

lemma row_value_bounds:
  assumes wf: "wf_bitgen bg" and row: "generated_row bg n seed start end_date r"
  shows "0 \<le> unit_price r \<and> (\<exists>k. unit_price r = of_int k / 100)
    \<and> 1 \<le> quantity r \<and> quantity r \<le> 5 \<and> 0 \<le> discount_pct r \<and> discount_pct r \<le> 30 / 100"
proof -
  from row obtain g5 g5' g6 g6' g7 g7' where
    pro: "pick_product bg (product_category r) g5 = Inr ((product_name r, unit_price r), g5')"
    and qty: "draw_quantity bg (product_category r) g6 = Inr (quantity r, g6')"
    and dis: "draw_discount bg (product_category r) g7 = Inr (discount_pct r, g7')"
    unfolding generated_row_def by blast
  from pick_productD [OF wf pro] obtain items idx base noise where
    m: "map_of catalog (product_category r) = Some items" and i: "idx < length items"
    and it: "items ! idx = (product_name r, base)" and n: "95 / 100 \<le> noise"
    and p: "unit_price r = np_round2 (base * noise)" by blast
  from i it have "(product_name r, base) \<in> set items" by (metis nth_mem)
  from catalog_prices [OF m this] n have "0 \<le> base * noise" by simp
  then have "0 \<le> unit_price r" unfolding p by (rule np_round2_nonneg)
  moreover have "\<exists>k. unit_price r = of_int k / 100" unfolding p by (rule np_round2_is_cents)
  ultimately show ?thesis
    using draw_quantity_range [OF wf qty] draw_discount_range [OF dis] by simp
qed


lemma run_clothing_row: "generate_table (const_bitgen (9 / 10) 0) 1 42 19723 20088 = Inr [clothing_row]"
  using run_clothing by (simp add: clothing_row_def)

lemma run_online_row: "generate_table (const_bitgen (3 / 10) 0) 1 42 19723 20088 = Inr [online_row]"
  using run_online by (simp add: online_row_def)


lemma wf_online_gen: "wf_bitgen (const_bitgen (3 / 10) 0)"
  by (rule wf_const_bitgen) simp_all

lemma row_sales_amount:
  "generated_row bg n seed start end_date r \<Longrightarrow>
     sales_amount r = np_round2 (unit_price r * of_int (quantity r) * (1 - discount_pct r))"
  by (simp add: generated_row_def)

subsection \<open>The generator returns a table\<close>









lemma map_rng_set:
  assumes "map_rng f xs g = Inr (ys, g')" and "y \<in> set ys"
  shows "\<exists>x g1 g2. x \<in> set xs \<and> f x g1 = Inr (y, g2)"
proof -
  from assms(2) obtain i where i: "i < length ys" and y: "ys ! i = y" by (auto simp: in_set_conv_nth)
  from i map_rng_length [OF assms(1)] have "i < length xs" by simp
  from map_rng_nth [OF assms(1) this] y this show ?thesis by (metis nth_mem)
qed

lemma draws_set:
  assumes "draws f n g = Inr (ys, g')" and "y \<in> set ys"
  shows "\<exists>g1 g2. f g1 = Inr (y, g2)"
  using map_rng_set [OF assms [unfolded draws_def]] by blast



lemma draw_category_in_categories:
  "draw_category bg q ch g = Inr (c, g') \<Longrightarrow> c \<in> set categories"
  unfolding draw_category_def by (rule rng_choice_p_in_set)









subsection \<open>Splitting what was joined\<close>

lemma split_on_no_sep: "sep \<notin> set s \<Longrightarrow> split_on sep s = [s]"
  by (induction s) auto

lemma split_on_append:
  "sep \<notin> set a \<Longrightarrow> split_on sep (a @ sep # b) = a # split_on sep b"
  by (induction a) auto

lemma split_on_join:
  assumes "\<And>c. c \<in> set cells \<Longrightarrow> sep \<notin> set c" and "cells \<noteq> []"
  shows "split_on sep (py_join [sep] cells) = cells"
  using assms
proof (induction "[sep]" cells rule: py_join.induct)
  case 1
  then show ?case by simp
next
  case (2 x)
  then show ?case by (simp add: split_on_no_sep)
next
  case (3 x y ys)
  then show ?case by (simp add: split_on_append)
qed

lemma set_py_join: "set (py_join sep cells) \<subseteq> set sep \<union> \<Union> (set ` set cells)"
  by (induction sep cells rule: py_join.induct) auto

lemma split_on_lines:
  assumes "\<And>l. l \<in> set ls \<Longrightarrow> nl \<notin> set l"
  shows "split_on nl (concat (map (\<lambda>l. l @ [nl]) ls)) = ls @ [[]]"
  using assms by (induction ls) (simp_all add: split_on_append)

lemma text_lines_concat:
  assumes "\<And>l. l \<in> set ls \<Longrightarrow> CHR 0x0A \<notin> set l"
  shows "text_lines (concat (map (\<lambda>l. l @ [CHR 0x0A]) ls)) = ls"
  by (simp add: text_lines_def split_on_lines [OF assms])

subsection \<open>Digits\<close>

lemma is_digit_digit_char: "d < 10 \<Longrightarrow> is_digit (digit_char d)"
  by (simp add: is_digit_def digit_char_def)

lemma digits_str_nat: "list_all is_digit (str_nat n)"
proof (induction n rule: str_nat.induct)
  case (1 n)
  show ?case
  proof (cases "n < 10")
    case True
    then show ?thesis by (subst str_nat.simps) (simp add: is_digit_digit_char)
  next
    case False
    with 1 show ?thesis by (subst str_nat.simps) (simp add: is_digit_digit_char)
  qed
qed

lemma length_str_nat_1: "n < 10 \<Longrightarrow> length (str_nat n) = 1"
  by (subst str_nat.simps) simp

lemma length_str_nat_2: "n < 100 \<Longrightarrow> length (str_nat n) \<le> 2"
  by (subst str_nat.simps) (simp add: length_str_nat_1)

lemma length_str_nat_3: "n < 1000 \<Longrightarrow> length (str_nat n) \<le> 3"
  using length_str_nat_2 [of "n div 10"] by (subst str_nat.simps) (simp add: length_str_nat_1)

lemma length_str_nat_4: "n < 10000 \<Longrightarrow> length (str_nat n) \<le> 4"
  using length_str_nat_3 [of "n div 10"] by (subst str_nat.simps) (simp add: length_str_nat_1)

lemma zfill_no_sign:
  assumes "s = c # rest" and "c \<noteq> CHR ''+''" and "c \<noteq> CHR ''-''"
  shows "zfill w s = replicate (w - length s) (CHR ''0'') @ s"
  using assms by (simp add: zfill_def)

lemma zfill_digits:
  assumes "list_all is_digit s" and "length s \<le> w"
  shows "length (zfill w s) = w \<and> list_all is_digit (zfill w s)"
proof (cases s)
  case Nil
  have "is_digit (CHR ''0'')" by (simp add: is_digit_def)
  with Nil show ?thesis by (simp add: zfill_def list_all_iff)
next
  case (Cons c rest)
  have z: "is_digit (CHR ''0'')" by (simp add: is_digit_def)
  from assms(1) Cons have "is_digit c" by simp
  then have "c \<noteq> CHR ''+''" "c \<noteq> CHR ''-''" by (auto simp: is_digit_def)
  from zfill_no_sign [OF Cons this] have "zfill w s = replicate (w - length s) (CHR ''0'') @ s" .
  with assms z show ?thesis by (auto simp: list_all_iff)
qed

lemma is_digit_plain: "is_digit c \<Longrightarrow> \<not> needs_quote c"
  by (auto simp: is_digit_def needs_quote_def)

lemma digits_plain: "list_all is_digit s \<Longrightarrow> plain s"
  by (induction s) (simp_all add: plain_def is_digit_plain)

lemma plain_append: "plain (a @ b) \<longleftrightarrow> plain a \<and> plain b"
  by (simp add: plain_def list_ex_iff Bex_def) blast

lemma plain_Cons: "plain (c # s) \<longleftrightarrow> \<not> needs_quote c \<and> plain s"
  by (simp add: plain_def)

lemma plain_Nil: "plain []"
  by (simp add: plain_def)

lemma csv_field_plain: "plain s \<Longrightarrow> csv_field s = s"
  by (simp add: csv_field_def plain_def)

lemma plain_no_comma: "plain s \<Longrightarrow> CHR '','' \<notin> set s"
  by (auto simp: plain_def list_ex_iff needs_quote_def)

lemma plain_no_newline: "plain s \<Longrightarrow> CHR 0x0A \<notin> set s"
  by (auto simp: plain_def list_ex_iff needs_quote_def)


subsection \<open>Dates\<close>

lemma div_bounds: "0 < c \<Longrightarrow> c * (x div c) \<le> x \<and> x < c * (x div c) + (c::int)"
proof -
  assume c: "0 < c"
  have "x = c * (x div c) + x mod c" by simp
  moreover from c have "0 \<le> x mod c" "x mod c < c" by simp_all
  ultimately show ?thesis by linarith
qed

lemma civil_from_days_bounds:
  assumes lo: "- 719468 \<le> days" and hi: "days \<le> 2932896"
  shows "case civil_from_days days of (y, m, d) \<Rightarrow>
           0 \<le> y \<and> y \<le> 9999 \<and> 1 \<le> m \<and> m \<le> 12 \<and> 1 \<le> d \<and> d \<le> 31"
proof -
  define z where "z = days + 719468"
  define era where "era = z div 146097"
  define doe where "doe = z - era * 146097"
  define q1 where "q1 = doe div 1460"
  define q2 where "q2 = doe div 36524"
  define q3 where "q3 = doe div 146096"
  define yoe where "yoe = (doe - q1 + q2 - q3) div 365"
  define a where "a = yoe div 4"
  define b where "b = yoe div 100"
  define doy where "doy = doe - (365 * yoe + a - b)"
  define mp where "mp = (5 * doy + 2) div 153"
  define t where "t = (153 * mp + 2) div 5"
  define d where "d = doy - t + 1"
  define m where "m = (if mp < 10 then mp + 3 else mp - 9)"
  have cfd: "civil_from_days days = (if m \<le> 2 then yoe + era * 400 + 1 else yoe + era * 400, m, d)"
    unfolding civil_from_days_def Let_def m_def d_def t_def mp_def doy_def b_def a_def yoe_def
      q3_def q2_def q1_def doe_def era_def z_def
    by (rule refl)
  have z: "0 \<le> z" "z \<le> 3652364" using lo hi by (simp_all add: z_def)
  have era: "146097 * era \<le> z" "z < 146097 * era + 146097"
    using div_bounds [of 146097 z] unfolding era_def by simp_all
  have era_range: "0 \<le> era" "era \<le> 24" using era z by linarith+
  have doe: "0 \<le> doe" "doe < 146097" using era by (simp_all add: doe_def)
  have q1: "1460 * q1 \<le> doe" "doe < 1460 * q1 + 1460"
    using div_bounds [of 1460 doe] unfolding q1_def by simp_all
  have q2: "36524 * q2 \<le> doe" "doe < 36524 * q2 + 36524"
    using div_bounds [of 36524 doe] unfolding q2_def by simp_all
  have q3: "146096 * q3 \<le> doe" "doe < 146096 * q3 + 146096"
    using div_bounds [of 146096 doe] unfolding q3_def by simp_all
  have yoe: "365 * yoe \<le> doe - q1 + q2 - q3" "doe - q1 + q2 - q3 < 365 * yoe + 365"
    using div_bounds [of 365 "doe - q1 + q2 - q3"] unfolding yoe_def by simp_all
  have a: "4 * a \<le> yoe" "yoe < 4 * a + 4"
    using div_bounds [of 4 yoe] unfolding a_def by simp_all
  have b: "100 * b \<le> yoe" "yoe < 100 * b + 100"
    using div_bounds [of 100 yoe] unfolding b_def by simp_all
  have mp: "153 * mp \<le> 5 * doy + 2" "5 * doy + 2 < 153 * mp + 153"
    using div_bounds [of 153 "5 * doy + 2"] unfolding mp_def by simp_all
  have t: "5 * t \<le> 153 * mp + 2" "153 * mp + 2 < 5 * t + 5"
    using div_bounds [of 5 "153 * mp + 2"] unfolding t_def by simp_all
  have doy: "- 6 \<le> doy" "doy \<le> 372" and yoe_range: "0 \<le> yoe" "yoe \<le> 400"
    using doe q1 q2 q3 yoe a b unfolding doy_def by linarith+
  have mp_range: "- 1 \<le> mp" "mp \<le> 12" using mp doy by linarith+
  have m_range: "1 \<le> m" "m \<le> 12" using mp_range by (simp_all add: m_def)
  have d_range: "1 \<le> d" "d \<le> 31" using mp t unfolding d_def by linarith+
  have y_lo: "0 \<le> yoe + era * 400" using yoe_range era_range by simp
  have y_hi: "(if m \<le> 2 then yoe + era * 400 + 1 else yoe + era * 400) \<le> 9999"
  proof (cases "era \<le> 23")
    case True
    with yoe_range show ?thesis by simp
  next
    case False
    with era_range have e24: "era = 24" by simp
    with z have doe_hi: "doe \<le> 146036" by (simp add: doe_def)
    have q2_hi: "q2 \<le> 3" using q2 doe_hi by linarith
    have q3_lo: "0 \<le> q3" using q3 doe by linarith
    have y399: "yoe \<le> 399" using doe doe_hi q1 q2 q3 yoe by linarith
    show ?thesis
    proof (cases "yoe = 399")
      case True
      then have ab: "a = 99" "b = 3" by (simp_all add: a_def b_def)
      from True yoe have "145635 \<le> doe - q1 + q2 - q3" by simp
      with q1 q2_hi q3_lo have "145731 \<le> doe" by linarith
      with True ab doe_hi have "0 \<le> doy" "doy \<le> 305" by (simp_all add: doy_def)
      with mp have "0 \<le> mp" "mp < 10" by linarith+
      then have "\<not> m \<le> 2" by (simp add: m_def)
      with True e24 show ?thesis by simp
    next
      case False
      with y399 e24 show ?thesis by simp
    qed
  qed
  show ?thesis
  proof (cases "m \<le> 2")
    case True
    with y_lo y_hi m_range d_range show ?thesis unfolding cfd by simp
  next
    case False
    with y_lo y_hi m_range d_range show ?thesis unfolding cfd by simp
  qed
qed

lemma is_iso_date_iso_date:
  assumes "- 719468 \<le> days" and "days \<le> 2932896"
  shows "is_iso_date (iso_date days) \<and> plain (iso_date days)"
proof -
  obtain y m d where cfd: "civil_from_days days = (y, m, d)" by (cases "civil_from_days days")
  with civil_from_days_bounds [OF assms] have
    r: "0 \<le> y" "y \<le> 9999" "1 \<le> m" "m \<le> 12" "1 \<le> d" "d \<le> 31" by simp_all
  define ys where "ys = zfill 4 (str_int y)"
  define ms where "ms = zfill 2 (str_int m)"
  define ds where "ds = zfill 2 (str_int d)"
  from r have "str_int y = str_nat (nat y)" "nat y < 10000" by (simp_all add: str_int_def)
  with zfill_digits [OF digits_str_nat length_str_nat_4, of "nat y"]
  have ys: "length ys = 4" "list_all is_digit ys" by (simp_all add: ys_def)
  from r have "str_int m = str_nat (nat m)" "nat m < 100" by (simp_all add: str_int_def)
  with zfill_digits [OF digits_str_nat length_str_nat_2, of "nat m"]
  have ms: "length ms = 2" "list_all is_digit ms" by (simp_all add: ms_def)
  from r have "str_int d = str_nat (nat d)" "nat d < 100" by (simp_all add: str_int_def)
  with zfill_digits [OF digits_str_nat length_str_nat_2, of "nat d"]
  have ds: "length ds = 2" "list_all is_digit ds" by (simp_all add: ds_def)
  have iso: "iso_date days = ys @ ''-'' @ ms @ ''-'' @ ds"
    by (simp add: iso_date_def cfd ys_def ms_def ds_def)
  have "is_iso_date (ys @ ''-'' @ ms @ ''-'' @ ds)"
    using ys ms ds by (simp add: is_iso_date_def nth_append)
  moreover have "plain (ys @ ''-'' @ ms @ ''-'' @ ds)"
    using ys ms ds by (simp add: plain_append plain_Cons plain_Nil digits_plain needs_quote_def)
  ultimately show ?thesis by (simp add: iso)
qed


subsection \<open>The cells of a generated row\<close>

lemma plain_str_nat: "plain (str_nat n)"
  by (rule digits_plain [OF digits_str_nat])

lemma plain_str_int: "plain (str_int i)"
  by (simp add: str_int_def plain_Cons plain_str_nat needs_quote_def)

lemma plain_replicate: "\<not> needs_quote c \<Longrightarrow> plain (replicate k c)"
  by (induction k) (simp_all add: plain_Cons plain_Nil)

lemma plain_zfill:
  assumes "plain s" shows "plain (zfill w s)"
proof -
  have "\<not> needs_quote (CHR ''0'')" by (simp add: needs_quote_def)
  with assms show ?thesis
    by (cases s) (simp_all add: zfill_def plain_append plain_replicate plain_Cons)
qed

lemma plain_repr_cents: "plain (repr_cents x)"
proof -
  define a where "a = nat \<bar>\<lfloor>x * 100\<rfloor>\<bar>"
  have d: "\<not> needs_quote (digit_char k)" if "k < 10" for k
    using that by (intro is_digit_plain is_digit_digit_char)
  have p: "\<not> needs_quote (CHR ''-'')" "\<not> needs_quote (CHR ''.'')"
    by (simp_all add: needs_quote_def)
  have "a mod 100 div 10 < 10" "a mod 100 mod 10 < 10" by simp_all
  then have "plain ((if \<lfloor>x * 100\<rfloor> < 0 then ''-'' else []) @ str_nat (a div 100) @ ''.'' @
      (if a mod 100 mod 10 = 0 then [digit_char (a mod 100 div 10)]
       else [digit_char (a mod 100 div 10), digit_char (a mod 100 mod 10)]))"
    by (simp add: plain_append plain_Cons plain_Nil plain_str_nat d p)
  then show ?thesis unfolding repr_cents_def Let_def a_def [symmetric] .
qed

lemma plain_store_ids: "s \<in> set store_ids \<Longrightarrow> plain s"
  by (auto simp: store_ids_def stores_def plain_def needs_quote_def)

lemma plain_store_locs: "store_locs s = Some l \<Longrightarrow> plain l"
  by (auto simp: store_locs_def stores_def plain_def needs_quote_def split: if_splits)

lemma plain_channels: "s \<in> set channels \<Longrightarrow> plain s"
  by (auto simp: channels_def plain_def needs_quote_def)

lemma plain_segments: "s \<in> set segments \<Longrightarrow> plain s"
  by (auto simp: segments_def plain_def needs_quote_def)

lemma plain_categories: "s \<in> set categories \<Longrightarrow> plain s"
  by (auto simp: categories_eval plain_def needs_quote_def)

lemma plain_pm: "s \<in> set pm \<Longrightarrow> plain s"
  by (auto simp: pm_def plain_def needs_quote_def)

lemma catalog_names_plain:
  "list_all (\<lambda>(cat, items). list_all (\<lambda>(name, base). plain name) items) catalog"
  by (simp add: catalog_def plain_def needs_quote_def)

lemma plain_product_names:
  assumes "map_of catalog cat = Some items" and "(name, base) \<in> set items"
  shows "plain name"
proof -
  from assms(1) have "(cat, items) \<in> set catalog" by (rule map_of_SomeD)
  with catalog_names_plain have "list_all (\<lambda>(name, base). plain name) items"
    by (auto simp: list_all_iff)
  with assms(2) show ?thesis by (auto simp: list_all_iff)
qed

lemma plain_customer_ids: "s \<in> set customer_ids \<Longrightarrow> plain s"
  by (auto simp: customer_ids_def plain_Cons plain_zfill plain_str_nat needs_quote_def)

lemma plain_txn_id: "plain (''T'' @ zfill 7 (str_nat i))"
  by (simp add: plain_Cons plain_zfill plain_str_nat needs_quote_def)


lemma generated_row_cells:
  assumes wf: "wf_bitgen bg" and row: "generated_row bg n seed start end_date r"
    and lo: "- 719468 \<le> start" and hi: "end_date \<le> 2932896"
  shows "list_all plain (raw_cells r) \<and> is_iso_date (iso_date (date r))"
proof -
  from row obtain i where "transaction_id r = ''T'' @ zfill 7 (str_nat (i + 1))"
    unfolding generated_row_def by blast
  then have c1: "plain (transaction_id r)" by (simp only: plain_txn_id)
  from row obtain d g g' where
    "rng_integers bg 0 (end_date - start + 1) g = Inr (d, g')" and dt: "date r = start + d"
    unfolding generated_row_def by blast
  from rng_integers_range [OF wf this(1)] dt lo hi
  have "- 719468 \<le> date r" "date r \<le> 2932896" by simp_all
  from is_iso_date_iso_date [OF this] have c2: "is_iso_date (iso_date (date r))" "plain (iso_date (date r))"
    by simp_all
  from row obtain g g' where "rng_choice_p bg store_ids store_probs g = Inr (store_id r, g')"
    unfolding generated_row_def by blast
  then have c3: "plain (store_id r)" by (intro plain_store_ids rng_choice_p_in_set)
  from row have "store_locs (store_id r) = Some (store_location r)"
    unfolding generated_row_def by blast
  then have c4: "plain (store_location r)" by (rule plain_store_locs)
  from row obtain g g' where "rng_choice_p bg channels channel_probs g = Inr (transaction_type r, g')"
    unfolding generated_row_def by blast
  then have c5: "plain (transaction_type r)" by (intro plain_channels rng_choice_p_in_set)
  from row obtain g g' where "rng_choice bg customer_ids g = Inr (customer_id r, g')"
    unfolding generated_row_def by blast
  then have c6: "plain (customer_id r)" by (intro plain_customer_ids rng_choice_in_set)
  from row obtain pool g' where
    pool: "draws (rng_choice_p bg segments segment_probs) n_customers (seed_state bg seed) = Inr (pool, g')"
    and seg: "map_of (zip customer_ids pool) (customer_id r) = Some (customer_segment r)"
    unfolding generated_row_def by blast
  have "customer_segment r \<in> set pool"
    by (rule set_zip_rightD [OF map_of_SomeD [OF seg]])
  from draws_set [OF pool this] obtain g1 g2 where
    "rng_choice_p bg segments segment_probs g1 = Inr (customer_segment r, g2)" by blast
  then have c7: "plain (customer_segment r)" by (intro plain_segments rng_choice_p_in_set)
  from row obtain q g g' where
    "draw_category bg q (transaction_type r) g = Inr (product_category r, g')"
    unfolding generated_row_def by blast
  then have c8: "plain (product_category r)" by (intro plain_categories draw_category_in_categories)
  from row obtain g g' where
    "pick_product bg (product_category r) g = Inr ((product_name r, unit_price r), g')"
    unfolding generated_row_def by blast
  from pick_productD [OF wf this] obtain items idx base where
    "map_of catalog (product_category r) = Some items" "idx < length items"
    "items ! idx = (product_name r, base)" by blast
  then have c9: "plain (product_name r)"
    using nth_mem [of idx items] by (intro plain_product_names [of "product_category r" items _ base]) simp_all
  from row obtain g g' where "draw_payment bg (transaction_type r) g = Inr (payment_method r, g')"
    unfolding generated_row_def by blast
  then have c14: "plain (payment_method r)"
    unfolding draw_payment_def by (intro plain_pm rng_choice_p_in_set)
  show ?thesis
    using c1 c2 c3 c4 c5 c6 c7 c8 c9 c14
    by (simp add: raw_cells_def plain_repr_cents plain_str_int)
qed


subsection \<open>Reading back what was written\<close>

lemma join_plain:
  assumes "list_all plain cells" and "cells \<noteq> []"
  shows "split_on (CHR '','') (py_join '','' cells) = cells \<and> CHR 0x0A \<notin> set (py_join '','' cells)"
proof -
  from assms(1) have c: "CHR '','' \<notin> set c" "CHR 0x0A \<notin> set c" if "c \<in> set cells" for c
    using that by (auto simp: list_all_iff plain_no_comma plain_no_newline)
  have "split_on (CHR '','') (py_join [CHR '',''] cells) = cells"
    by (rule split_on_join) (simp_all add: c assms(2))
  moreover have "CHR 0x0A \<notin> set (py_join '','' cells)"
    using set_py_join [of "'',''" cells] c(2) by auto
  ultimately show ?thesis by simp
qed

lemma csv_cells_plain: "list_all plain (raw_cells r) \<Longrightarrow> csv_cells r = raw_cells r"
  by (simp add: raw_cells_def csv_cells_def csv_field_plain)

lemma csv_line_plain:
  assumes "list_all plain (raw_cells r)"
  shows "split_on (CHR '','') (csv_line r) = raw_cells r \<and> CHR 0x0A \<notin> set (csv_line r)"
proof -
  have "raw_cells r \<noteq> []" by (simp add: raw_cells_def)
  from join_plain [OF assms this] show ?thesis
    by (simp add: csv_line_def csv_cells_plain [OF assms])
qed

lemma csv_columns_plain: "list_all plain csv_columns"
  by (simp add: csv_columns_def plain_def needs_quote_def)

lemma csv_header_plain:
  "split_on (CHR '','') csv_header = csv_columns \<and> CHR 0x0A \<notin> set csv_header"
proof -
  have "map csv_field csv_columns = csv_columns"
    using csv_columns_plain by (intro map_idI) (simp add: list_all_iff csv_field_plain)
  moreover have "csv_columns \<noteq> []" by (simp add: csv_columns_def)
  ultimately show ?thesis
    using join_plain [OF csv_columns_plain] by (simp add: csv_header_def)
qed

lemma parse_to_csv:
  assumes "\<And>r. r \<in> set df \<Longrightarrow> list_all plain (raw_cells r)"
  shows "parse_csv (to_csv df) = csv_columns # map raw_cells df"
proof -
  have "CHR 0x0A \<notin> set l" if "l \<in> set (csv_header # map csv_line df)" for l
    using that csv_header_plain csv_line_plain [OF assms] by auto
  then have "text_lines (to_csv df) = csv_header # map csv_line df"
    unfolding to_csv_def by (rule text_lines_concat)
  then show ?thesis
    using csv_header_plain csv_line_plain [OF assms] by (simp add: parse_csv_def)
qed

lemma raw_cells_clothing:
  "raw_cells clothing_row =
     [''T0000001'', ''2024-01-01'', ''S006'', ''Old Town'', ''In-store'', ''C00001'', ''Premium'',
      ''Clothing'', ''T-Shirt'', ''13.02'', ''1'', ''0.3'', ''9.11'', ''UPI'']"
  by code_simp

lemma plain_clothing: "list_all plain (raw_cells clothing_row)"
  unfolding raw_cells_clothing by (simp add: plain_def needs_quote_def)

lemma run_clothing_file:
  "generate_urbanmart_sales (const_bitgen (9 / 10) 0) \<lparr>files = Map.empty, calls = []\<rparr>
      ''urbanmart_sales.csv'' 1 42 19723 20088 =
     (Inr [clothing_row],
      \<lparr>files = [''urbanmart_sales.csv'' \<mapsto> to_csv [clothing_row]],
       calls = [(''urbanmart_sales.csv'', 1, 42, 19723, 20088)]\<rparr>)"
  using run_clothing_row by (simp add: generate_urbanmart_sales_def Let_def)

subsection \<open>The manual counter skips what is not a string\<close>

lemma count_step_non_string: "\<not> is_str v \<Longrightarrow> count_step acc v = acc"
  by (cases v; cases acc) simp_all

lemma foldl_count_step_filter:
  "foldl count_step acc (filter is_str ts) = foldl count_step acc ts"
  by (induction ts arbitrary: acc) (simp_all add: count_step_non_string)

subsection \<open>C4: the manual counter on the example of the specification\<close>

text \<open>
  Claim C4. On the list \<^verbatim>\<open>["Online", "ONLINE ", "in-store", "InStore", "in store",
  None, 42, "other"]\<close> the manual counter returns Online = 2 and In-store = 3. The run
  returns a value (the counter has no failing branch), and the entries that are not
  strings do not enter the tally: \<^verbatim>\<open>None\<close> and 42 leave the pair of counters as it
  was, and on every list the counts are those of its strings alone.
\<close>

theorem manual_counts_example:
  "manual_counts [PyStr ''Online'', PyStr ''ONLINE '', PyStr ''in-store'', PyStr ''InStore'',
                  PyStr ''in store'', PyNone, PyInt 42, PyStr ''other''] = (2, 3)
   \<and> filter is_str [PyStr ''Online'', PyStr ''ONLINE '', PyStr ''in-store'', PyStr ''InStore'',
                  PyStr ''in store'', PyNone, PyInt 42, PyStr ''other'']
       = [PyStr ''Online'', PyStr ''ONLINE '', PyStr ''in-store'', PyStr ''InStore'',
          PyStr ''in store'', PyStr ''other'']
   \<and> count_step (2, 3) PyNone = (2, 3)
   \<and> count_step (2, 3) (PyInt 42) = (2, 3)
   \<and> manual_counts ts = manual_counts (filter is_str ts)"
proof -
  have "manual_counts ts = manual_counts (filter is_str ts)"
    by (simp add: manual_counts_def foldl_count_step_filter)
  moreover have "manual_counts [PyStr ''Online'', PyStr ''ONLINE '', PyStr ''in-store'',
      PyStr ''InStore'', PyStr ''in store'', PyNone, PyInt 42, PyStr ''other''] = (2, 3)"
    by code_simp
  ultimately show ?thesis by simp
qed

subsection \<open>C10: the guarded average order value\<close>

text \<open>
  Claim C10. The average order value is \<open>total_sales / orders\<close> when the filtered frame
  has at least one order, and 0.0 otherwise, in particular on the empty frame. The
  division is only reached with a divisor that is not zero: no frame makes the KPI raise.
\<close>

theorem aov_guarded:
  "aov fdf = Inr (if 0 < orders fdf then total_sales fdf / of_nat (orders fdf) else 0)
   \<and> aov [] = Inr 0
   \<and> (\<nexists>e. aov fdf = Inl e)
   \<and> (if orders fdf \<noteq> 0
       then aov fdf = py_truediv (total_sales fdf) (of_nat (orders fdf))
         \<and> py_truediv (total_sales fdf) (of_nat (orders fdf)) \<noteq> Inl ZeroDivisionError
       else aov fdf = Inr 0)"
  by (simp add: aov_def py_truediv_def orders_def nunique_def List.map_filter_simps)

subsection \<open>C7: no cash online\<close>

text \<open>
  Claim C7. A row of the generated table whose channel is Online never has the payment
  method Cash: with the weight 0 the cumulative sums repeat, and no double falls between
  two equal bounds.
\<close>

theorem online_never_cash:
  assumes "generate_table bg n seed start end_date = Inr df" and "r \<in> set df"
    and "transaction_type r = ''Online''"
  shows "payment_method r \<noteq> ''Cash'' \<and> payment_method r \<in> {''Card'', ''Wallet'', ''UPI''}"
proof -
  from generate_table_rows [OF assms(1,2)] obtain g g' where
    "draw_payment bg (transaction_type r) g = Inr (payment_method r, g')"
    unfolding generated_row_def by blast
  with assms(3) have "draw_payment bg ''Online'' g = Inr (payment_method r, g')" by simp
  from draw_payment_online [OF this] show ?thesis by auto
qed

theorem online_never_cash_witness:
  "generate_table (const_bitgen (3 / 10) 0) 1 42 19723 20088 = Inr [online_row]
   \<and> transaction_type online_row = ''Online''
   \<and> payment_method online_row = ''Card''
   \<and> payment_method online_row \<noteq> ''Cash''"
  using online_never_cash [OF run_online_row, of online_row] run_online_row
  by (simp add: online_row_def)

subsection \<open>The lines of a generated file\<close>

text \<open>
  For dates with a year of four digits (0000-03-01 to 9999-12-31, the day numbers
  \<open>-719468\<close> and \<open>2932896\<close>) the file of a run that returns holds the header line and
  one line of fourteen cells per transaction, in the order of the table; a line starts
  with the transaction id and its second cell has the shape \<^verbatim>\<open>YYYY-MM-DD\<close>.
\<close>

lemma generated_file_cells:
  assumes "wf_bitgen bg"
    and "generate_urbanmart_sales bg w out_path n seed start end_date = (Inr df, w')"
    and "- 719468 \<le> start" and "end_date \<le> 2932896"
  shows "files w' out_path = Some (to_csv df)
     \<and> length df = n
     \<and> parse_csv (to_csv df) =
         [''transaction_id'', ''date'', ''store_id'', ''store_location'', ''transaction_type'',
          ''customer_id'', ''customer_segment'', ''product_category'', ''product_name'',
          ''unit_price'', ''quantity'', ''discount_pct'', ''sales_amount'', ''payment_method'']
         # map raw_cells df
     \<and> list_all (\<lambda>r. length (raw_cells r) = 14 \<and> raw_cells r ! 0 = transaction_id r
           \<and> is_iso_date (raw_cells r ! 1)) df"
proof -
  from assms(2) have gen: "generate_table bg n seed start end_date = Inr df"
    and written: "files w' out_path = Some (to_csv df)"
    by (auto simp: generate_urbanmart_sales_def Let_def split: sum.splits)
  have cells: "list_all plain (raw_cells r) \<and> is_iso_date (iso_date (date r))" if "r \<in> set df" for r
    using generated_row_cells [OF assms(1) generate_table_rows [OF gen that] assms(3,4)] .
  then have "parse_csv (to_csv df) = csv_columns # map raw_cells df"
    by (intro parse_to_csv) simp
  moreover have "list_all (\<lambda>r. length (raw_cells r) = 14 \<and> raw_cells r ! 0 = transaction_id r
           \<and> is_iso_date (raw_cells r ! 1)) df"
    using cells by (simp add: list_all_iff raw_cells_def)
  ultimately show ?thesis
    using written generate_table_length [OF gen] by (simp add: csv_columns_def)
qed

lemma to_csv_starts_with_header: "\<exists>rest. to_csv df = csv_header @ [CHR 0x0A] @ rest"
  by (simp add: to_csv_def)

lemma csv_header_eval:
  "csv_header = ''transaction_id,date,store_id,store_location,transaction_type,customer_id,customer_segment,product_category,product_name,unit_price,quantity,discount_pct,sales_amount,payment_method''"
  by code_simp

lemma split_csv_header: "split_on (CHR '','') csv_header = csv_columns"
  using csv_header_plain by simp

subsection \<open>C8: a missing file is regenerated\<close>




subsection \<open>C1: the format of the file\<close>

text \<open>
  Claim C1. The header of the file the generator writes has fourteen names, and the fifth
  is \<open>transaction_type\<close>, the key the frame is built with, where the docstring of the
  function and section 3 of the specification list \<open>channel\<close>: every file the
  generator writes starts with the line below, whatever the table, and no cell of that
  line is \<open>channel\<close>. The run of one transaction shows a file.
\<close>

theorem csv_header_names_transaction_type:
  "csv_header = ''transaction_id,date,store_id,store_location,transaction_type,customer_id,customer_segment,product_category,product_name,unit_price,quantity,discount_pct,sales_amount,payment_method''
   \<and> (\<exists>rest. to_csv df = csv_header @ [CHR 0x0A] @ rest)
   \<and> split_on (CHR '','') csv_header =
       [''transaction_id'', ''date'', ''store_id'', ''store_location'', ''transaction_type'',
        ''customer_id'', ''customer_segment'', ''product_category'', ''product_name'',
        ''unit_price'', ''quantity'', ''discount_pct'', ''sales_amount'', ''payment_method'']
   \<and> split_on (CHR '','') csv_header \<noteq> spec_columns
   \<and> ''channel'' \<notin> set (split_on (CHR '','') csv_header)
   \<and> generate_urbanmart_sales (const_bitgen (9 / 10) 0) \<lparr>files = Map.empty, calls = []\<rparr>
        ''urbanmart_sales.csv'' 1 42 19723 20088 =
       (Inr [clothing_row],
        \<lparr>files = [''urbanmart_sales.csv'' \<mapsto> to_csv [clothing_row]],
         calls = [(''urbanmart_sales.csv'', 1, 42, 19723, 20088)]\<rparr>)
   \<and> hd (parse_csv (to_csv [clothing_row])) = split_on (CHR '','') csv_header"
proof -
  have "parse_csv (to_csv [clothing_row]) = csv_columns # map raw_cells [clothing_row]"
    by (rule parse_to_csv) (simp add: plain_clothing)
  then show ?thesis
    using run_clothing_file to_csv_starts_with_header [of df] csv_header_eval
    by (simp add: split_csv_header csv_columns_def spec_columns_def)
qed

end
